theory Spec2Isabelle
  imports Main "HOL-Library.Multiset"
begin

section \<open>Python values of the modelled fragment\<close>

text \<open>
  The module \<^verbatim>\<open>richtablebuilder.py\<close> works on arbitrary Python objects. The
  embedding fixes a data fragment: \<^verbatim>\<open>None\<close>, integers, strings, lists, dictionaries
  keyed by strings or integers, and plain objects that carry the qualified name of their
  class, as \<^verbatim>\<open>type\<close> prints it (\<^verbatim>\<open>__main__.Foo\<close>), and data attributes. The two
  module-level sentinels \<^verbatim>\<open>MISSING = object()\<close> and
  \<^verbatim>\<open>NO_DEFAULT = object()\<close> are values of their own, as in the source, where the
  test \<^verbatim>\<open>obj is MISSING\<close> looks at whatever a lookup returned.
\<close>

type_synonym style = string

datatype key = KStr string | KInt int

datatype pyval =
    PNone
  | PInt int
  | PStr string
  | PList "pyval list"
  | PDict "(key \<times> pyval) list"
  | PObj string "(string \<times> pyval) list"
  | MISSING
  | NO_DEFAULT

text \<open>
  Exceptions are values. \<open>KeyError\<close>, \<open>IndexError\<close> and \<open>TypeError\<close> carry their
  message; \<open>NotRenderableError\<close> is the exception of the rendering library;
  \<open>OtherError\<close> (class name, message) stands for any other exception a user-supplied
  callable raises.
\<close>

datatype error =
    KeyError string
  | IndexError string
  | TypeError string
  | NotRenderableError string
  | OtherError string string

subsection \<open>\<^verbatim>\<open>str\<close> and \<^verbatim>\<open>repr\<close>\<close>

definition digit_char :: "nat \<Rightarrow> char" where
  "digit_char d =
     (if d = 0 then CHR ''0'' else if d = 1 then CHR ''1'' else if d = 2 then CHR ''2''
      else if d = 3 then CHR ''3'' else if d = 4 then CHR ''4'' else if d = 5 then CHR ''5''
      else if d = 6 then CHR ''6'' else if d = 7 then CHR ''7'' else if d = 8 then CHR ''8''
      else CHR ''9'')"

fun str_of_nat :: "nat \<Rightarrow> string" where
  "str_of_nat n = (if n < 10 then [digit_char n] else str_of_nat (n div 10) @ [digit_char (n mod 10)])"

declare str_of_nat.simps [simp del]

definition str_of_int :: "int \<Rightarrow> string" where
  "str_of_int i = (if i < 0 then CHR ''-'' # str_of_nat (nat (- i)) else str_of_nat (nat i))"

definition hex_char :: "nat \<Rightarrow> char" where
  "hex_char d =
     (if d < 10 then digit_char d else if d = 10 then CHR ''a'' else if d = 11 then CHR ''b''
      else if d = 12 then CHR ''c'' else if d = 13 then CHR ''d'' else if d = 14 then CHR ''e''
      else CHR ''f'')"

text \<open>
  \<^verbatim>\<open>repr\<close> of a string: single quotes unless the string holds a single quote and no
  double quote; the quote character and the backslash are escaped, tab, newline and
  carriage return are written \<^verbatim>\<open>\t \n \r\<close>, and every other character that is not
  printable is written \<^verbatim>\<open>\xNN\<close>.
\<close>

definition printable_char :: "char \<Rightarrow> bool" where
  "printable_char c = (let n = (of_char c :: nat) in (32 \<le> n \<and> n < 127) \<or> (161 \<le> n \<and> n \<noteq> 173))"

definition repr_char :: "char \<Rightarrow> char \<Rightarrow> string" where
  "repr_char q c =
     (if c = q \<or> c = CHR 0x5C then [CHR 0x5C, c]
      else if c = CHR 0x09 then [CHR 0x5C, CHR ''t'']
      else if c = CHR 0x0A then [CHR 0x5C, CHR ''n'']
      else if c = CHR 0x0D then [CHR 0x5C, CHR ''r'']
      else if printable_char c then [c]
      else [CHR 0x5C, CHR ''x'', hex_char ((of_char c :: nat) div 16), hex_char ((of_char c :: nat) mod 16)])"

definition repr_str :: "string \<Rightarrow> string" where
  "repr_str s =
     (let q = (if CHR 0x27 \<in> set s \<and> CHR 0x22 \<notin> set s then CHR 0x22 else CHR 0x27)
      in q # concat (map (repr_char q) s) @ [q])"

fun repr_key :: "key \<Rightarrow> string" where
  "repr_key (KStr s) = repr_str s"
| "repr_key (KInt i) = str_of_int i"

fun join :: "string \<Rightarrow> string list \<Rightarrow> string" where
  "join sep [] = []"
| "join sep [x] = x"
| "join sep (x # y # ys) = x @ sep @ join sep (y # ys)"

text \<open>
  \<^verbatim>\<open>repr\<close> of a value. The default \<^verbatim>\<open>repr\<close> of a plain object prints its address,
  which the model leaves out.
\<close>

fun py_repr :: "pyval \<Rightarrow> string" where
  "py_repr PNone = ''None''"
| "py_repr (PInt i) = str_of_int i"
| "py_repr (PStr s) = repr_str s"
| "py_repr (PList xs) = ''['' @ join '', '' (map py_repr xs) @ '']''"
| "py_repr (PDict kvs) = ''{'' @ join '', '' (map (\<lambda>kv. repr_key (fst kv) @ '': '' @ py_repr (snd kv)) kvs) @ ''}''"
| "py_repr (PObj cls attrs) = ''<'' @ cls @ '' object>''"
| "py_repr MISSING = ''<object object>''"
| "py_repr NO_DEFAULT = ''<object object>''"

text \<open>\<^verbatim>\<open>str(v)\<close>: a string is itself, everything else is its \<^verbatim>\<open>repr\<close>.\<close>

fun py_str :: "pyval \<Rightarrow> string" where
  "py_str (PStr s) = s"
| "py_str v = py_repr v"

text \<open>
  The name printed by \<^verbatim>\<open>type(v)\<close>, which is qualified by the module for a class
  that is not built in.
\<close>

fun class_name :: "pyval \<Rightarrow> string" where
  "class_name PNone = ''NoneType''"
| "class_name (PInt i) = ''int''"
| "class_name (PStr s) = ''str''"
| "class_name (PList xs) = ''list''"
| "class_name (PDict kvs) = ''dict''"
| "class_name (PObj cls attrs) = cls"
| "class_name MISSING = ''object''"
| "class_name NO_DEFAULT = ''object''"

text \<open>\<^verbatim>\<open>type(v).__name__\<close>: the part of that name after the last dot.\<close>

definition type_name :: "pyval \<Rightarrow> string" where
  "type_name v = rev (takeWhile (\<lambda>c. c \<noteq> CHR ''.'') (rev (class_name v)))"

subsection \<open>Indexing and attribute lookup\<close>

text \<open>
  Sequence indexing: a negative index counts from the end; out of range is no element.
\<close>

definition py_index :: "'a list \<Rightarrow> int \<Rightarrow> 'a option" where
  "py_index xs i =
     (if 0 \<le> i \<and> i < int (length xs) then Some (xs ! nat i)
      else if i < 0 \<and> - int (length xs) \<le> i then Some (xs ! nat (int (length xs) + i))
      else None)"

text \<open>
  \<^verbatim>\<open>obj[k]\<close>. A dictionary raises \<open>KeyError\<close> on an absent key. A list or a string
  raises \<open>IndexError\<close> on an integer out of range and \<open>TypeError\<close> on a string index.
  Every other value of the fragment is not subscriptable: \<open>TypeError\<close>.
\<close>

fun subscript :: "pyval \<Rightarrow> key \<Rightarrow> error + pyval" where
  "subscript (PDict kvs) k =
     (case map_of kvs k of Some v \<Rightarrow> Inr v | None \<Rightarrow> Inl (KeyError (repr_key k)))"
| "subscript (PList xs) (KInt i) =
     (case py_index xs i of Some v \<Rightarrow> Inr v | None \<Rightarrow> Inl (IndexError ''list index out of range''))"
| "subscript (PList xs) (KStr s) =
     Inl (TypeError ''list indices must be integers or slices, not str'')"
| "subscript (PStr s) (KInt i) =
     (case py_index s i of Some c \<Rightarrow> Inr (PStr [c]) | None \<Rightarrow> Inl (IndexError ''string index out of range''))"
| "subscript (PStr s) (KStr t) =
     Inl (TypeError (''string indices must be integers, not '' @ repr_str ''str''))"
| "subscript v k = Inl (TypeError (CHR 0x27 # type_name v @ CHR 0x27 # '' object is not subscriptable''))"

text \<open>
  Attribute lookup, for the attributes whose values are data: the data attributes of a
  plain object, and \<^verbatim>\<open>real\<close>, \<^verbatim>\<open>imag\<close>, \<^verbatim>\<open>numerator\<close> and
  \<^verbatim>\<open>denominator\<close> of an integer. The methods and the special attributes
  (\<^verbatim>\<open>__class__\<close>, \<^verbatim>\<open>__doc__\<close>, ...) of a value are not data of the fragment; the
  model has no value for them and treats their names as absent.
\<close>

fun attr_lookup :: "pyval \<Rightarrow> string \<Rightarrow> pyval option" where
  "attr_lookup (PObj cls attrs) a = map_of attrs a"
| "attr_lookup (PInt i) a =
     (if a = ''real'' \<or> a = ''numerator'' then Some (PInt i)
      else if a = ''imag'' then Some (PInt 0)
      else if a = ''denominator'' then Some (PInt 1)
      else None)"
| "attr_lookup v a = None"

text \<open>\<^verbatim>\<open>getattr(obj, name, dflt)\<close> and \<^verbatim>\<open>hasattr(obj, name)\<close>\<close>

definition getattr :: "pyval \<Rightarrow> string \<Rightarrow> pyval \<Rightarrow> pyval" where
  "getattr obj a dflt = (case attr_lookup obj a of Some v \<Rightarrow> v | None \<Rightarrow> dflt)"

definition hasattr :: "pyval \<Rightarrow> string \<Rightarrow> bool" where
  "hasattr obj a = (attr_lookup obj a \<noteq> None)"

section \<open>\<^verbatim>\<open>ObjType\<close>: accessor paths\<close>

text \<open>
  An accessor is the pair \<^verbatim>\<open>("key", k)\<close> or \<^verbatim>\<open>("attr", name)\<close>; \<^verbatim>\<open>__accessors__\<close>
  and \<^verbatim>\<open>__transforms__\<close> are tuples.
\<close>

datatype accessor = Key key | Attr string

record ObjType =
  accessors :: "accessor list"
  transforms :: "(pyval \<Rightarrow> error + pyval) list"

text \<open>\<^verbatim>\<open>ObjType.__repr__\<close>\<close>

fun repr_part :: "accessor \<Rightarrow> string" where
  "repr_part (Key k) = ''['' @ repr_key k @ '']''"
| "repr_part (Attr a) = ''.'' @ a"

definition ObjType_repr :: "ObjType \<Rightarrow> string" where
  "ObjType_repr self = concat (''Obj'' # map repr_part (accessors self))"

text \<open>
  One accessor of the loop in \<^verbatim>\<open>ObjType.__call__\<close>, up to the test
  \<^verbatim>\<open>obj is MISSING\<close>: only \<open>KeyError\<close> and \<open>IndexError\<close> are caught.
\<close>

fun lookup :: "accessor \<Rightarrow> pyval \<Rightarrow> error + pyval" where
  "lookup (Key k) obj =
     (case subscript obj k of
        Inr v \<Rightarrow> Inr v
      | Inl (KeyError m) \<Rightarrow> Inr MISSING
      | Inl (IndexError m) \<Rightarrow> Inr MISSING
      | Inl e \<Rightarrow> Inl e)"
| "lookup (Attr a) obj = Inr (getattr obj a MISSING)"

text \<open>
  The loop over \<^verbatim>\<open>self.__accessors__\<close>; \<open>nm\<close> is \<^verbatim>\<open>repr(self)\<close>. The test for
  the sentinel and the substitution of the default are inside the loop body.
\<close>

fun walk :: "string \<Rightarrow> accessor list \<Rightarrow> pyval \<Rightarrow> pyval \<Rightarrow> error + pyval" where
  "walk nm [] obj dflt = Inr obj"
| "walk nm (a # as) obj dflt =
     (case lookup a obj of
        Inl e \<Rightarrow> Inl e
      | Inr v \<Rightarrow>
          if v = MISSING then
            (if dflt = NO_DEFAULT then Inl (KeyError nm) else walk nm as dflt dflt)
          else walk nm as v dflt)"

fun apply_transforms :: "(pyval \<Rightarrow> error + pyval) list \<Rightarrow> pyval \<Rightarrow> error + pyval" where
  "apply_transforms [] obj = Inr obj"
| "apply_transforms (t # ts) obj =
     (case t obj of Inl e \<Rightarrow> Inl e | Inr v \<Rightarrow> apply_transforms ts v)"

text \<open>\<^verbatim>\<open>ObjType.__call__(self, obj, default=NO_DEFAULT)\<close>\<close>

definition ObjType_call :: "ObjType \<Rightarrow> pyval \<Rightarrow> pyval \<Rightarrow> error + pyval" where
  "ObjType_call self obj dflt =
     (case walk (ObjType_repr self) (accessors self) obj dflt of
        Inl e \<Rightarrow> Inl e
      | Inr v \<Rightarrow> apply_transforms (transforms self) v)"

text \<open>
  \<^verbatim>\<open>__getitem__\<close>, \<^verbatim>\<open>__getattr__\<close> and \<^verbatim>\<open>_apply\<close> build a new \<^verbatim>\<open>ObjType\<close>. The
  first two pass no transforms on: the new object's \<^verbatim>\<open>__transforms__\<close> is empty.
\<close>

definition ObjType_getitem :: "ObjType \<Rightarrow> key \<Rightarrow> ObjType" where
  "ObjType_getitem self k = \<lparr>accessors = accessors self @ [Key k], transforms = []\<rparr>"

definition ObjType_getattr :: "ObjType \<Rightarrow> string \<Rightarrow> ObjType" where
  "ObjType_getattr self k = \<lparr>accessors = accessors self @ [Attr k], transforms = []\<rparr>"

definition ObjType_apply :: "ObjType \<Rightarrow> (pyval \<Rightarrow> error + pyval) \<Rightarrow> ObjType" where
  "ObjType_apply self f = \<lparr>accessors = accessors self, transforms = transforms self @ [f]\<rparr>"

definition Obj :: ObjType where
  "Obj = \<lparr>accessors = [], transforms = []\<rparr>"

section \<open>\<^verbatim>\<open>TableField\<close>\<close>

text \<open>
  A renderable is a plain value, a \<^verbatim>\<open>rich.text.Text\<close> (string and style) or a
  \<^verbatim>\<open>rich.styled.Styled\<close> (renderable and style).
\<close>

datatype renderable = Val pyval | Text string style | Styled renderable style

text \<open>
  A header or footer is a literal renderable or a reducer; \<^verbatim>\<open>callable(rx)\<close> tells
  them apart. User-supplied callables may raise.
\<close>

datatype heading = Literal renderable | Reducer "pyval list \<Rightarrow> error + pyval"

datatype getter = GObj ObjType | GFun "pyval \<Rightarrow> pyval \<Rightarrow> error + pyval"

fun call_getter :: "getter \<Rightarrow> pyval \<Rightarrow> pyval \<Rightarrow> error + pyval" where
  "call_getter (GObj p) obj dflt = ObjType_call p obj dflt"
| "call_getter (GFun f) obj dflt = f obj dflt"

record TableField =
  header :: heading
  name :: "string option"
  getter :: getter
  default_value :: pyval
  formatter :: "(pyval \<Rightarrow> error + renderable) option"
  footer :: heading
  style :: style
  header_style :: style
  footer_style :: style
  justify :: string

text \<open>
  The \<^verbatim>\<open>key\<close> argument of \<^verbatim>\<open>TableField.__init__\<close> is a value or a callable (an
  \<^verbatim>\<open>ObjType\<close> is callable).
\<close>

datatype key_arg = KeyValue pyval | KeyCallable getter

definition invalid_key_message :: "pyval \<Rightarrow> string" where
  "invalid_key_message v = ''Invalid key type: <class '' @ CHR 0x27 # class_name v @ CHR 0x27 # ''>''"

text \<open>The branches on \<^verbatim>\<open>key\<close> in \<^verbatim>\<open>TableField.__init__\<close>, in the source's order.\<close>

fun key_getter :: "key_arg \<Rightarrow> error + getter" where
  "key_getter (KeyValue PNone) = Inr (GObj Obj)"
| "key_getter (KeyCallable g) = Inr g"
| "key_getter (KeyValue (PStr s)) = Inr (GObj (ObjType_getitem Obj (KStr s)))"
| "key_getter (KeyValue v) = Inl (TypeError (invalid_key_message v))"

definition TableField_init ::
  "heading \<Rightarrow> heading \<Rightarrow> key_arg \<Rightarrow> pyval \<Rightarrow> (pyval \<Rightarrow> error + renderable) option \<Rightarrow>
   style \<Rightarrow> style \<Rightarrow> style \<Rightarrow> string \<Rightarrow> error + TableField" where
  "TableField_init h f key dflt fmt st hst fst0 jst =
     (case key_getter key of
        Inl e \<Rightarrow> Inl e
      | Inr g \<Rightarrow> Inr \<lparr>header = h, name = None, getter = g, default_value = dflt, formatter = fmt,
                      footer = f, style = st, header_style = hst, footer_style = fst0, justify = jst\<rparr>)"

text \<open>The default formatter, \<^verbatim>\<open>str\<close>.\<close>

definition str_formatter :: "pyval \<Rightarrow> error + renderable" where
  "str_formatter v = Inr (Val (PStr (py_str v)))"

text \<open>\<^verbatim>\<open>TableField._apply_style\<close>\<close>

fun apply_style_to :: "renderable \<Rightarrow> style \<Rightarrow> renderable" where
  "apply_style_to (Val (PStr s)) st = Text s st"
| "apply_style_to v st = Styled v st"

text \<open>\<^verbatim>\<open>a or b\<close> on styles, which are strings.\<close>

definition style_or :: "style \<Rightarrow> style \<Rightarrow> style" where
  "style_or a b = (if a \<noteq> [] then a else b)"

text \<open>\<^verbatim>\<open>TableField._get_field_value\<close>\<close>

definition get_field_value :: "TableField \<Rightarrow> pyval \<Rightarrow> error + pyval" where
  "get_field_value self obj =
     (case call_getter (getter self) obj (default_value self) of
        Inl e \<Rightarrow> Inl e
      | Inr val \<Rightarrow> Inr (if val = PNone then default_value self else val))"

text \<open>\<^verbatim>\<open>TableField._format_field_value\<close>, statement by statement.\<close>

definition format_field_value :: "TableField \<Rightarrow> pyval \<Rightarrow> bool \<Rightarrow> style \<Rightarrow> error + renderable" where
  "format_field_value self val0 apply_style default_style =
     (let val = (if val0 = PNone then PStr [] else val0) in
      case (case formatter self of
              Some f \<Rightarrow> if val \<noteq> PNone then f val else Inr (Val val)
            | None \<Rightarrow> Inr (Val val)) of
        Inl e \<Rightarrow> Inl e
      | Inr r \<Rightarrow> Inr (if apply_style then apply_style_to r (style_or (style self) default_style) else r))"

text \<open>\<^verbatim>\<open>TableField._reduce_and_format\<close>\<close>

definition reduce_and_format :: "TableField \<Rightarrow> heading \<Rightarrow> pyval list \<Rightarrow> error + renderable" where
  "reduce_and_format self rx values =
     (case rx of
        Reducer r \<Rightarrow>
          (case r values of
             Inl e \<Rightarrow> Inl e
           | Inr v \<Rightarrow>
               (case formatter self of
                  Some f \<Rightarrow> if v \<noteq> PNone then f v else Inr (Val v)
                | None \<Rightarrow> Inr (Val v)))
      | Literal l \<Rightarrow> Inr l)"

text \<open>\<^verbatim>\<open>TableField._get_header\<close> and \<^verbatim>\<open>TableField._get_footer\<close>\<close>

definition get_header :: "TableField \<Rightarrow> pyval list \<Rightarrow> bool \<Rightarrow> style \<Rightarrow> error + renderable" where
  "get_header self values apply_style default_style =
     (case reduce_and_format self (header self) values of
        Inl e \<Rightarrow> Inl e
      | Inr v \<Rightarrow> Inr (if apply_style then apply_style_to v (style_or (header_style self) default_style) else v))"

definition get_footer :: "TableField \<Rightarrow> pyval list \<Rightarrow> bool \<Rightarrow> style \<Rightarrow> error + renderable" where
  "get_footer self values apply_style default_style =
     (case reduce_and_format self (footer self) values of
        Inl e \<Rightarrow> Inl e
      | Inr v \<Rightarrow> Inr (if apply_style then apply_style_to v (style_or (footer_style self) default_style) else v))"

section \<open>\<^verbatim>\<open>TableBuilder\<close>\<close>

text \<open>
  \<^verbatim>\<open>TableOptions\<close> is a dictionary whose keys are all optional. The options the
  builder reads are fields of their own; the others are kept as a map.
\<close>

record TableOptions =
  opt_show_header :: "bool option"
  opt_show_footer :: "bool option"
  opt_style :: "style option"
  opt_header_style :: "style option"
  opt_footer_style :: "style option"
  opt_other :: "string \<rightharpoonup> pyval"

text \<open>\<^verbatim>\<open>rich.table.Column\<close>, as far as the builder sets it.\<close>

record Column =
  c_header :: renderable
  c_footer :: renderable
  c_justify :: string
  c_style :: style
  c_header_style :: style
  c_footer_style :: style

text \<open>\<^verbatim>\<open>Column(header)\<close> with the library's defaults for everything else.\<close>

definition Column_init :: "string \<Rightarrow> Column" where
  "Column_init h = \<lparr>c_header = Val (PStr h), c_footer = Val (PStr []), c_justify = ''left'',
                     c_style = [], c_header_style = [], c_footer_style = []\<rparr>"

text \<open>\<^verbatim>\<open>TableField.column\<close>\<close>

definition column :: "TableField \<Rightarrow> renderable \<Rightarrow> renderable \<Rightarrow> Column" where
  "column self h f = \<lparr>c_header = h, c_footer = f, c_justify = justify self, c_style = style self,
                       c_header_style = header_style self, c_footer_style = footer_style self\<rparr>"

text \<open>
  The rendering collaborator \<^verbatim>\<open>rich.table.Table\<close> is outside the module. The model
  keeps what the builder hands to it: the columns and options of the constructor call
  and, in order, the calls of \<^verbatim>\<open>add_section\<close> and \<^verbatim>\<open>add_row\<close>. The options are
  taken to have the types \<^verbatim>\<open>TableOptions\<close> declares, so that the constructor accepts
  them.
\<close>

datatype table_op = AddSection | AddRow "renderable list"

text \<open>
  \<^verbatim>\<open>add_row\<close> takes \<^verbatim>\<open>None\<close> for an empty cell and otherwise wants a renderable: a
  string or an object with \<^verbatim>\<open>__rich__\<close> or \<^verbatim>\<open>__rich_console__\<close>, as \<^verbatim>\<open>Text\<close> and
  \<^verbatim>\<open>Styled\<close> are. At the first cell that is neither it raises
  \<open>NotRenderableError\<close>, naming the type of the cell.
\<close>

fun is_renderable :: "renderable \<Rightarrow> bool" where
  "is_renderable (Val (PStr s)) = True"
| "is_renderable (Val v) = (hasattr v ''__rich__'' \<or> hasattr v ''__rich_console__'')"
| "is_renderable (Text s st) = True"
| "is_renderable (Styled r st) = True"

definition accepted_cell :: "renderable \<Rightarrow> bool" where
  "accepted_cell c = (c = Val PNone \<or> is_renderable c)"

fun cell_type_name :: "renderable \<Rightarrow> string" where
  "cell_type_name (Val v) = type_name v"
| "cell_type_name (Text s st) = ''Text''"
| "cell_type_name (Styled r st) = ''Styled''"

definition add_row :: "renderable list \<Rightarrow> error + table_op" where
  "add_row row =
     (case find (\<lambda>c. \<not> accepted_cell c) row of
        None \<Rightarrow> Inr (AddRow row)
      | Some c \<Rightarrow>
          Inl (NotRenderableError (''unable to render '' @ cell_type_name c
                 @ ''; a string or other renderable object is required'')))"

record Table =
  t_columns :: "Column list"
  t_kwargs :: TableOptions
  t_ops :: "table_op list"

record TableFieldContent =
  fc_header :: renderable
  fc_values :: "renderable list"
  fc_footer :: renderable

text \<open>Truth value of a renderable, for \<^verbatim>\<open>x or ""\<close>.\<close>

fun truthy :: "renderable \<Rightarrow> bool" where
  "truthy (Val PNone) = False"
| "truthy (Val (PInt i)) = (i \<noteq> 0)"
| "truthy (Val (PStr s)) = (s \<noteq> [])"
| "truthy (Val (PList xs)) = (xs \<noteq> [])"
| "truthy (Val (PDict kvs)) = (kvs \<noteq> [])"
| "truthy (Val v) = True"
| "truthy (Text s st) = (s \<noteq> [])"
| "truthy (Styled r st) = True"

definition or_empty :: "renderable \<Rightarrow> renderable" where
  "or_empty r = (if truthy r then r else Val (PStr []))"

text \<open>A list comprehension over a function that may raise: the first exception ends it.\<close>

fun mapE :: "('a \<Rightarrow> error + 'b) \<Rightarrow> 'a list \<Rightarrow> error + 'b list" where
  "mapE f [] = Inr []"
| "mapE f (x # xs) =
     (case f x of
        Inl e \<Rightarrow> Inl e
      | Inr y \<Rightarrow> (case mapE f xs of Inl e \<Rightarrow> Inl e | Inr ys \<Rightarrow> Inr (y # ys)))"

text \<open>\<^verbatim>\<open>kwargs.get(name, d)\<close> and the value of \<^verbatim>\<open>kwargs.pop(name, d)\<close> for one option.\<close>

definition get_or :: "'a option \<Rightarrow> 'a \<Rightarrow> 'a" where
  "get_or v d = (case v of Some s \<Rightarrow> s | None \<Rightarrow> d)"

text \<open>\<^verbatim>\<open>TableBuilder._build_field_content\<close>\<close>

definition build_field_content ::
  "TableField \<Rightarrow> pyval list \<Rightarrow> TableOptions \<Rightarrow> bool \<Rightarrow> error + TableFieldContent" where
  "build_field_content tf items table_kwargs apply_style =
     (case mapE (get_field_value tf) items of
        Inl e \<Rightarrow> Inl e
      | Inr values \<Rightarrow>
     (case get_header tf values apply_style (get_or (opt_header_style table_kwargs) []) of
        Inl e \<Rightarrow> Inl e
      | Inr h \<Rightarrow>
     (case get_footer tf values apply_style (get_or (opt_footer_style table_kwargs) []) of
        Inl e \<Rightarrow> Inl e
      | Inr f \<Rightarrow>
     (case mapE (\<lambda>v. format_field_value tf v apply_style (get_or (opt_style table_kwargs) [])) values of
        Inl e \<Rightarrow> Inl e
      | Inr vs \<Rightarrow> Inr \<lparr>fc_header = h, fc_values = vs, fc_footer = f\<rparr>))))"

text \<open>
  The section markers of a normal build: \<^verbatim>\<open>True\<close> for every item when there is no
  section function, the item's section key otherwise.
\<close>

datatype 'k marker = MTrue | MKey 'k

text \<open>
  \<^verbatim>\<open>for row_idx, val in enumerate(column_content.values): rows[row_idx].append(val)\<close>
\<close>

fun append_cells :: "'a list list \<Rightarrow> 'a list \<Rightarrow> error + 'a list list" where
  "append_cells rows [] = Inr rows"
| "append_cells [] (v # vs) = Inl (IndexError ''list index out of range'')"
| "append_cells (r # rows) (v # vs) =
     (case append_cells rows vs of Inl e \<Rightarrow> Inl e | Inr rows' \<Rightarrow> Inr ((r @ [v]) # rows'))"

text \<open>The loop over \<^verbatim>\<open>self._table_fields.values()\<close> of the normal build.\<close>

fun normal_fields ::
  "TableField list \<Rightarrow> pyval list \<Rightarrow> TableOptions \<Rightarrow> Column list \<Rightarrow> renderable list list \<Rightarrow>
   error + (Column list \<times> renderable list list)" where
  "normal_fields [] items table_kwargs columns rows = Inr (columns, rows)"
| "normal_fields (tf # tfs) items table_kwargs columns rows =
     (case build_field_content tf items table_kwargs False of
        Inl e \<Rightarrow> Inl e
      | Inr c \<Rightarrow>
          (case append_cells rows (fc_values c) of
             Inl e \<Rightarrow> Inl e
           | Inr rows' \<Rightarrow>
               normal_fields tfs items table_kwargs
                 (columns @ [column tf (fc_header c) (or_empty (fc_footer c))]) rows'))"

text \<open>
  The loop over \<^verbatim>\<open>zip(section_markers, rows)\<close>, with \<^verbatim>\<open>current_marker\<close> as
  its state.
\<close>

fun add_rows :: "'m \<Rightarrow> ('m \<times> renderable list) list \<Rightarrow> error + table_op list" where
  "add_rows current_marker [] = Inr []"
| "add_rows current_marker ((m, row) # rest) =
     (if m \<noteq> current_marker then
        (case add_row row of
           Inl e \<Rightarrow> Inl e
         | Inr r \<Rightarrow> (case add_rows m rest of Inl e \<Rightarrow> Inl e | Inr ops \<Rightarrow> Inr (AddSection # r # ops)))
      else
        (case add_row row of
           Inl e \<Rightarrow> Inl e
         | Inr r \<Rightarrow> (case add_rows current_marker rest of Inl e \<Rightarrow> Inl e | Inr ops \<Rightarrow> Inr (r # ops))))"

text \<open>\<^verbatim>\<open>items = sorted(items, key=self.section_by)\<close>, when there is a section function.\<close>

definition section_sorted :: "(pyval \<Rightarrow> 'k::linorder) option \<Rightarrow> pyval list \<Rightarrow> pyval list" where
  "section_sorted section_by items = (case section_by of Some f \<Rightarrow> sort_key f items | None \<Rightarrow> items)"

text \<open>
  \<^verbatim>\<open>[self.section_by(item) for item in items]\<close>, or \<^verbatim>\<open>[True] * len(items)\<close> when
  there is no section function.
\<close>

definition markers_of :: "(pyval \<Rightarrow> 'k) option \<Rightarrow> pyval list \<Rightarrow> 'k marker list" where
  "markers_of section_by items =
     (case section_by of
        Some f \<Rightarrow> map (\<lambda>item. MKey (f item)) items
      | None \<Rightarrow> replicate (length items) MTrue)"

text \<open>
  \<^verbatim>\<open>TableBuilder._build_table_normal\<close>. \<^verbatim>\<open>sorted(items, key=...)\<close> is a stable
  sort; \<^const>\<open>sort_key\<close> is one, and a stable sort has one result. The section
  function is taken to return comparable keys and not to raise.
\<close>

definition build_table_normal ::
  "TableField list \<Rightarrow> (pyval \<Rightarrow> 'k::linorder) option \<Rightarrow> pyval list \<Rightarrow> TableOptions \<Rightarrow> error + Table" where
  "build_table_normal tfs section_by items0 table_kwargs =
     (let items = section_sorted section_by items0;
          section_markers = markers_of section_by items
      in case normal_fields tfs items table_kwargs [] (replicate (length items) []) of
           Inl e \<Rightarrow> Inl e
         | Inr (columns, rows) \<Rightarrow>
             if rows \<noteq> [] then
               (case section_markers of
                  [] \<Rightarrow> Inl (IndexError ''list index out of range'')
                | m # ms \<Rightarrow>
                    (case add_rows m (zip section_markers rows) of
                       Inl e \<Rightarrow> Inl e
                     | Inr ops \<Rightarrow> Inr \<lparr>t_columns = columns, t_kwargs = table_kwargs, t_ops = ops\<rparr>))
             else Inr \<lparr>t_columns = columns, t_kwargs = table_kwargs, t_ops = []\<rparr>)"

text \<open>One pass of the loop over the fields in \<^verbatim>\<open>_build_table_transposed\<close>.\<close>

definition transposed_row ::
  "TableOptions \<Rightarrow> pyval list \<Rightarrow> bool \<Rightarrow> bool \<Rightarrow> TableField \<Rightarrow> error + renderable list" where
  "transposed_row table_kwargs values show_header show_footer tf =
     (case build_field_content tf values table_kwargs True of
        Inl e \<Rightarrow> Inl e
      | Inr row_content \<Rightarrow>
          Inr ((if show_header then [or_empty (fc_header row_content)] else [])
               @ fc_values row_content
               @ (if show_footer then [or_empty (fc_footer row_content)] else [])))"

text \<open>\<^verbatim>\<open>TableBuilder._build_table_transposed\<close>\<close>

definition build_table_transposed ::
  "TableField list \<Rightarrow> pyval list \<Rightarrow> TableOptions \<Rightarrow> error + Table" where
  "build_table_transposed tfs values table_kwargs0 =
     (let show_header = get_or (opt_show_header table_kwargs0) True;
          show_footer = get_or (opt_show_footer table_kwargs0) False;
          table_kwargs = table_kwargs0\<lparr>opt_show_header := Some False, opt_show_footer := Some False\<rparr>;
          column_count = length values + of_bool show_header + of_bool show_footer;
          columns = map (\<lambda>n. Column_init (''row'' @ str_of_nat n)) [0..<column_count]
      in case mapE (transposed_row table_kwargs values show_header show_footer) tfs of
           Inl e \<Rightarrow> Inl e
         | Inr rows \<Rightarrow>
             (case mapE add_row rows of
                Inl e \<Rightarrow> Inl e
              | Inr ops \<Rightarrow> Inr \<lparr>t_columns = columns, t_kwargs = table_kwargs, t_ops = ops\<rparr>))"

text \<open>
  A builder: the instance attributes and the class attribute \<^verbatim>\<open>_table_fields\<close>, whose
  values are the fields in declaration order.
\<close>

record 'k TableBuilder =
  transposed :: bool
  section_by :: "(pyval \<Rightarrow> 'k) option"
  default_table_kwargs :: TableOptions
  table_fields :: "TableField list"

text \<open>\<^verbatim>\<open>for opt, val in kwargs.items(): table_kwargs[opt] = val\<close>\<close>

definition update_options :: "TableOptions \<Rightarrow> TableOptions \<Rightarrow> TableOptions" where
  "update_options base kwargs =
     \<lparr>opt_show_header = (case opt_show_header kwargs of Some v \<Rightarrow> Some v | None \<Rightarrow> opt_show_header base),
      opt_show_footer = (case opt_show_footer kwargs of Some v \<Rightarrow> Some v | None \<Rightarrow> opt_show_footer base),
      opt_style = (case opt_style kwargs of Some v \<Rightarrow> Some v | None \<Rightarrow> opt_style base),
      opt_header_style = (case opt_header_style kwargs of Some v \<Rightarrow> Some v | None \<Rightarrow> opt_header_style base),
      opt_footer_style = (case opt_footer_style kwargs of Some v \<Rightarrow> Some v | None \<Rightarrow> opt_footer_style base),
      opt_other = opt_other base ++ opt_other kwargs\<rparr>"

text \<open>\<^verbatim>\<open>TableBuilder.__init__\<close>\<close>

definition TableBuilder_init ::
  "TableField list \<Rightarrow> bool \<Rightarrow> (pyval \<Rightarrow> 'k) option \<Rightarrow> TableOptions \<Rightarrow> 'k TableBuilder" where
  "TableBuilder_init tfs tr sb kwargs =
     \<lparr>transposed = tr, section_by = sb,
      default_table_kwargs = update_options
        \<lparr>opt_show_header = Some (get_or (opt_show_header kwargs) True),
         opt_show_footer = Some (get_or (opt_show_footer kwargs) False),
         opt_style = Some (get_or (opt_style kwargs) ''none''),
         opt_header_style = Some (get_or (opt_header_style kwargs) ''table.header''),
         opt_footer_style = Some (get_or (opt_footer_style kwargs) ''table.footer''),
         opt_other = Map.empty\<rparr> kwargs,
      table_fields = tfs\<rparr>"

text \<open>\<^verbatim>\<open>TableBuilder._build_table\<close>; \<open>tr\<close> is \<^verbatim>\<open>None\<close> or a truth value.\<close>

definition build_table ::
  "('k::linorder) TableBuilder \<Rightarrow> pyval list \<Rightarrow> TableOptions \<Rightarrow> bool option \<Rightarrow> error + Table" where
  "build_table self items table_kwargs tr =
     (if (case tr of None \<Rightarrow> transposed self | Some b \<Rightarrow> b)
      then build_table_transposed (table_fields self) items table_kwargs
      else build_table_normal (table_fields self) (section_by self) items table_kwargs)"

text \<open>\<^verbatim>\<open>TableBuilder.__call__\<close>\<close>

definition TableBuilder_call ::
  "('k::linorder) TableBuilder \<Rightarrow> pyval list \<Rightarrow> bool \<Rightarrow> TableOptions \<Rightarrow> error + Table" where
  "TableBuilder_call self data tr kwargs =
     build_table self data (update_options (default_table_kwargs self) kwargs) (Some tr)"

text \<open>
  The class method \<^verbatim>\<open>TableBuilder.build\<close>: \<^verbatim>\<open>cls(...)(data)\<close>, where the call
  takes \<^verbatim>\<open>transposed\<close> at its default \<^verbatim>\<open>False\<close> and no options.
\<close>

definition TableBuilder_build ::
  "TableField list \<Rightarrow> pyval list \<Rightarrow> bool \<Rightarrow> (pyval \<Rightarrow> 'k::linorder) option \<Rightarrow> TableOptions \<Rightarrow> error + Table" where
  "TableBuilder_build tfs data tr sb kwargs =
     TableBuilder_call (TableBuilder_init tfs tr sb kwargs) data False
       \<lparr>opt_show_header = None, opt_show_footer = None, opt_style = None,
        opt_header_style = None, opt_footer_style = None, opt_other = Map.empty\<rparr>"

section \<open>\<^verbatim>\<open>style_by_value\<close>\<close>

text \<open>
  The closure returned by \<^verbatim>\<open>style_by_value(next_style)\<close> owns the dictionary
  \<^verbatim>\<open>seen_values\<close>. The generator \<^verbatim>\<open>next_style\<close> has a state of its own, may raise,
  and is called only for a value not yet in the dictionary. The type \<open>'v\<close> is that of
  the hashable values, with Python's \<^verbatim>\<open>==\<close> as equality. The pair of a value and a
  style stands for \<^verbatim>\<open>Styled(value, style=style)\<close>.
\<close>

record ('v, 'g) style_memo =
  seen_values :: "'v \<rightharpoonup> style"
  gen :: 'g

definition style_by_value :: "'g \<Rightarrow> ('v, 'g) style_memo" where
  "style_by_value g = \<lparr>seen_values = Map.empty, gen = g\<rparr>"

definition format_value ::
  "('g \<Rightarrow> (error + style) \<times> 'g) \<Rightarrow> 'v \<Rightarrow> ('v, 'g) style_memo \<Rightarrow> (error + 'v \<times> style) \<times> ('v, 'g) style_memo" where
  "format_value next_style v st =
     (case seen_values st v of
        None \<Rightarrow>
          (case next_style (gen st) of
             (Inl e, g') \<Rightarrow> (Inl e, st\<lparr>gen := g'\<rparr>)
           | (Inr s, g') \<Rightarrow> (Inr (v, s), st\<lparr>seen_values := (seen_values st)(v \<mapsto> s), gen := g'\<rparr>))
      | Some s \<Rightarrow> (Inr (v, s), st))"

text \<open>A sequence of applications of one instance, with the result of each.\<close>

fun format_values ::
  "('g \<Rightarrow> (error + style) \<times> 'g) \<Rightarrow> 'v list \<Rightarrow> ('v, 'g) style_memo \<Rightarrow> (error + 'v \<times> style) list \<times> ('v, 'g) style_memo" where
  "format_values next_style [] st = ([], st)"
| "format_values next_style (v # vs) st =
     (case format_value next_style v st of
        (r, st') \<Rightarrow> (case format_values next_style vs st' of (rs, st'') \<Rightarrow> (r # rs, st'')))"

text \<open>\<^verbatim>\<open>rainbow_cycle\<close>, with the global \<^verbatim>\<open>_rainbow_idx\<close> as the generator's state.\<close>

definition RAINBOW_COLORS :: "style list" where
  "RAINBOW_COLORS = [''red'', ''orange1'', ''yellow2'', ''green3'', ''cyan1'', ''deep_sky_blue1'',
                     ''dark_blue'', ''dark_violet'']"

definition rainbow_cycle :: "int \<Rightarrow> (error + style) \<times> int" where
  "rainbow_cycle idx =
     (case py_index RAINBOW_COLORS idx of
        None \<Rightarrow> (Inl (IndexError ''list index out of range''), idx)
      | Some color \<Rightarrow> (Inr color, (idx + 1) mod int (length RAINBOW_COLORS)))"

section \<open>Notions used in the statements\<close>

text \<open>
  Objects are handled by reference. A store of \<^verbatim>\<open>ObjType\<close> objects, addressed by
  position, makes the allocation in \<^verbatim>\<open>__getitem__\<close> and \<^verbatim>\<open>__getattr__\<close> explicit:
  each call reads the object at \<open>self\<close> and puts a new object at the next free address.
\<close>

type_synonym store = "ObjType list"

text \<open>\<^verbatim>\<open>p[k]\<close> always calls \<^verbatim>\<open>__getitem__\<close>.\<close>

definition getitem_ref :: "store \<Rightarrow> nat \<Rightarrow> key \<Rightarrow> nat \<times> store" where
  "getitem_ref h self k = (length h, h @ [ObjType_getitem (h ! self) k])"

text \<open>
  \<^verbatim>\<open>p.name\<close> calls \<^verbatim>\<open>__getattr__\<close> only when the normal lookup finds nothing. The
  normal lookup finds the two instance attributes set by \<^verbatim>\<open>__init__\<close>, the methods
  of the class, and the names every object inherits (\<^verbatim>\<open>__class__\<close>, \<^verbatim>\<open>__doc__\<close>,
  ...). The inherited names depend on the Python version and are a parameter.
\<close>

definition ObjType_methods :: "string list" where
  "ObjType_methods = [''__init__'', ''_apply'', ''__call__'', ''__repr__'', ''__getitem__'',
                      ''__getattr__'']"

datatype attribute =
    NewPath nat
  | AccessorsTuple "accessor list"
  | TransformsTuple "(pyval \<Rightarrow> error + pyval) list"
  | BoundMethod string
  | InheritedAttribute string

definition attribute_ref :: "(string \<Rightarrow> bool) \<Rightarrow> store \<Rightarrow> nat \<Rightarrow> string \<Rightarrow> attribute \<times> store" where
  "attribute_ref inherited h self k =
     (if k = ''__accessors__'' then (AccessorsTuple (accessors (h ! self)), h)
      else if k = ''__transforms__'' then (TransformsTuple (transforms (h ! self)), h)
      else if k \<in> set ObjType_methods then (BoundMethod k, h)
      else if inherited k then (InheritedAttribute k, h)
      else (NewPath (length h), h @ [ObjType_getattr (h ! self) k]))"

text \<open>Names that \<^verbatim>\<open>object\<close> and every class give to an instance in each Python 3.\<close>

definition object_names :: "string list" where
  "object_names = [''__class__'', ''__delattr__'', ''__dict__'', ''__dir__'', ''__doc__'', ''__eq__'',
                   ''__format__'', ''__ge__'', ''__getattribute__'', ''__gt__'', ''__hash__'',
                   ''__init_subclass__'', ''__le__'', ''__lt__'', ''__module__'', ''__ne__'',
                   ''__new__'', ''__reduce__'', ''__reduce_ex__'', ''__setattr__'', ''__sizeof__'',
                   ''__str__'', ''__subclasshook__'', ''__weakref__'']"

definition is_object_name :: "string \<Rightarrow> bool" where
  "is_object_name k = (k \<in> set object_names)"

text \<open>The exception raised for a key of the wrong type, recognised by its message.\<close>

fun invalid_key_error :: "error \<Rightarrow> bool" where
  "invalid_key_error (TypeError m) = (take 18 m = ''Invalid key type: '')"
| "invalid_key_error e = False"

text \<open>
  The callables a user hands to a field (key function, transforms of an accessor path,
  formatter, reducers) raise no exception of that kind.
\<close>

definition no_invalid_key :: "('a \<Rightarrow> error + 'b) \<Rightarrow> bool" where
  "no_invalid_key f = (\<forall>x e. f x = Inl e \<longrightarrow> \<not> invalid_key_error e)"

fun heading_ok :: "heading \<Rightarrow> bool" where
  "heading_ok (Literal l) = True"
| "heading_ok (Reducer r) = no_invalid_key r"

fun getter_ok :: "getter \<Rightarrow> bool" where
  "getter_ok (GObj p) = (\<forall>t \<in> set (transforms p). no_invalid_key t)"
| "getter_ok (GFun g) = (\<forall>obj. no_invalid_key (g obj))"

definition callables_ok :: "TableField \<Rightarrow> bool" where
  "callables_ok tf =
     (getter_ok (getter tf) \<and> heading_ok (header tf) \<and> heading_ok (footer tf)
      \<and> (case formatter tf of None \<Rightarrow> True | Some f \<Rightarrow> no_invalid_key f))"

text \<open>
  The cell of one field for one record: the extracted value, formatted, as
  \<^verbatim>\<open>_build_field_content\<close> computes each entry of \<^verbatim>\<open>values\<close>.
\<close>

definition field_cell :: "TableOptions \<Rightarrow> bool \<Rightarrow> pyval \<Rightarrow> TableField \<Rightarrow> error + renderable" where
  "field_cell table_kwargs apply_style item tf =
     (case get_field_value tf item of
        Inl e \<Rightarrow> Inl e
      | Inr v \<Rightarrow> format_field_value tf v apply_style (get_or (opt_style table_kwargs) []))"

text \<open>\<^verbatim>\<open>TableField()\<close>, every argument at its default.\<close>

definition TableField_default :: TableField where
  "TableField_default =
     \<lparr>header = Literal (Val (PStr [])), name = None, getter = GObj Obj, default_value = PNone,
      formatter = Some str_formatter, footer = Literal (Val (PStr [])), style = [],
      header_style = [], footer_style = [], justify = ''left''\<rparr>"

text \<open>The formatter \<^verbatim>\<open>lambda x: f"${x}"\<close>.\<close>

definition dollar_formatter :: "pyval \<Rightarrow> error + renderable" where
  "dollar_formatter v = Inr (Val (PStr (CHR ''$'' # py_str v)))"

text \<open>
  \<^verbatim>\<open>sum\<close> as a reducer, on integers; any other value makes \<^verbatim>\<open>+\<close> raise.
\<close>

fun py_sum_from :: "int \<Rightarrow> pyval list \<Rightarrow> error + pyval" where
  "py_sum_from acc [] = Inr (PInt acc)"
| "py_sum_from acc (PInt i # vs) = py_sum_from (acc + i) vs"
| "py_sum_from acc (v # vs) =
     Inl (TypeError (''unsupported operand type(s) for +: '' @ repr_str ''int'' @ '' and ''
                     @ repr_str (type_name v)))"

definition py_sum :: "pyval list \<Rightarrow> error + pyval" where
  "py_sum vs = py_sum_from 0 vs"

text \<open>The reducer \<^verbatim>\<open>lambda vs: vs[0] if vs else None\<close>.\<close>

fun first_or_None :: "pyval list \<Rightarrow> error + pyval" where
  "first_or_None [] = Inr PNone"
| "first_or_None (v # vs) = Inr v"

text \<open>\<^verbatim>\<open>TableField(footer=lambda vs: vs[0] if vs else None)\<close> and \<^verbatim>\<open>TableField(footer=sum)\<close>.\<close>

definition first_footer_field :: TableField where
  "first_footer_field = TableField_default\<lparr>footer := Reducer first_or_None\<rparr>"

definition sum_footer_field :: TableField where
  "sum_footer_field = TableField_default\<lparr>footer := Reducer py_sum\<rparr>"

text \<open>No option given: \<^verbatim>\<open>{}\<close>.\<close>

definition no_options :: TableOptions where
  "no_options = \<lparr>opt_show_header = None, opt_show_footer = None, opt_style = None,
                  opt_header_style = None, opt_footer_style = None, opt_other = Map.empty\<rparr>"

text \<open>\<^verbatim>\<open>TableField(key=Obj["a"]["b"])\<close>\<close>

definition nested_key_field :: TableField where
  "nested_key_field =
     TableField_default\<lparr>getter := GObj (ObjType_getitem (ObjType_getitem Obj (KStr ''a'')) (KStr ''b''))\<rparr>"

text \<open>\<^verbatim>\<open>TableField(formatter=None)\<close>: values become cells as they are.\<close>

definition unformatted_field :: TableField where
  "unformatted_field = TableField_default\<lparr>formatter := None\<rparr>"

text \<open>
  The fields and records of the cart example: \<^verbatim>\<open>name\<close> (key \<^verbatim>\<open>"name"\<close>),
  \<^verbatim>\<open>qty\<close> (key \<^verbatim>\<open>"quantity"\<close>, footer \<^verbatim>\<open>sum\<close>) and \<^verbatim>\<open>price\<close> (key
  \<^verbatim>\<open>"price"\<close>, footer \<^verbatim>\<open>"-"\<close>).
\<close>

definition name_field :: TableField where
  "name_field = TableField_default
     \<lparr>header := Literal (Val (PStr ''name'')), getter := GObj (ObjType_getitem Obj (KStr ''name''))\<rparr>"

definition qty_field :: TableField where
  "qty_field = TableField_default
     \<lparr>header := Literal (Val (PStr ''qty'')), getter := GObj (ObjType_getitem Obj (KStr ''quantity'')),
      footer := Reducer py_sum\<rparr>"

definition price_field :: TableField where
  "price_field = TableField_default
     \<lparr>header := Literal (Val (PStr ''price'')), getter := GObj (ObjType_getitem Obj (KStr ''price'')),
      footer := Literal (Val (PStr ''-''))\<rparr>"

definition cart :: "pyval list" where
  "cart = [PDict [(KStr ''name'', PStr ''A''), (KStr ''quantity'', PInt 1), (KStr ''price'', PInt 10)],
           PDict [(KStr ''name'', PStr ''B''), (KStr ''quantity'', PInt 2), (KStr ''price'', PInt 20)]]"

text \<open>The options \<^verbatim>\<open>show_header=True, show_footer=True\<close>.\<close>

definition header_footer_options :: TableOptions where
  "header_footer_options = no_options\<lparr>opt_show_header := Some True, opt_show_footer := Some True\<rparr>"

text \<open>
  Three records with a group number, and the section function
  \<^verbatim>\<open>lambda r: r["group"]\<close> on them.
\<close>

definition grouped :: "pyval list" where
  "grouped = [PDict [(KStr ''name'', PStr ''A''), (KStr ''group'', PInt 2)],
              PDict [(KStr ''name'', PStr ''B''), (KStr ''group'', PInt 1)],
              PDict [(KStr ''name'', PStr ''C''), (KStr ''group'', PInt 2)]]"

fun group_of :: "pyval \<Rightarrow> int" where
  "group_of (PDict kvs) = (case map_of kvs (KStr ''group'') of Some (PInt i) \<Rightarrow> i | _ \<Rightarrow> 0)"
| "group_of v = 0"

section \<open>Accessor paths\<close>

lemma type_name_builtin [simp]:
  "type_name PNone = ''NoneType''" "type_name (PInt i) = ''int''" "type_name (PStr s) = ''str''"
  "type_name (PList xs) = ''list''" "type_name (PDict kvs) = ''dict''"
  "type_name MISSING = ''object''" "type_name NO_DEFAULT = ''object''"
  by (simp_all add: type_name_def)

lemma getattr_no_attribute [simp]:
  "getattr PNone a dflt = dflt" "getattr (PStr s) a dflt = dflt" "getattr (PList xs) a dflt = dflt"
  "getattr (PDict kvs) a dflt = dflt" "getattr MISSING a dflt = dflt" "getattr NO_DEFAULT a dflt = dflt"
  by (simp_all add: getattr_def)

lemma walk_append:
  "walk nm (as @ bs) obj dflt =
     (case walk nm as obj dflt of Inl e \<Rightarrow> Inl e | Inr v \<Rightarrow> walk nm bs v dflt)"
  by (induction as arbitrary: obj) (auto split: sum.splits)

text \<open>
  C9, counterexample. \<^verbatim>\<open>Obj._apply\<close> is the bound method and \<^verbatim>\<open>Obj.__accessors__\<close>
  the tuple of accessors: the normal lookup finds both names, \<^verbatim>\<open>__getattr__\<close> is not
  called, and no path with one more step is made.
\<close>

theorem reserved_name_is_no_path:
  "attribute_ref is_object_name [Obj] 0 ''_apply'' = (BoundMethod ''_apply'', [Obj])
   \<and> fst (attribute_ref is_object_name [Obj] 0 ''_apply'') \<noteq> NewPath 1
   \<and> attribute_ref is_object_name [Obj] 0 ''__accessors__'' = (AccessorsTuple [], [Obj])"
  by (simp add: attribute_ref_def ObjType_methods_def Obj_def)

text \<open>
  C9, as amended. \<^verbatim>\<open>p[k]\<close>, for every key, and \<^verbatim>\<open>p.a\<close>, for every name that the
  normal lookup does not find on the path object (not \<^verbatim>\<open>__accessors__\<close>, not
  \<^verbatim>\<open>__transforms__\<close>, not a method of \<^verbatim>\<open>ObjType\<close>, not a name inherited from
  \<^verbatim>\<open>object\<close>), allocate a new object, at an address not in use before, whose accessors
  are those of \<open>p\<close> followed by the new step; every object of the store, \<open>p\<close> included,
  is left as it was.
\<close>

theorem derived_path_is_new:
  assumes "self < length h"
      and "a \<noteq> ''__accessors__''" and "a \<noteq> ''__transforms__''" and "a \<notin> set ObjType_methods"
      and "\<not> inherited a"
  shows "(case getitem_ref h self k of (r, h') \<Rightarrow>
            r \<notin> {0..<length h} \<and> r < length h'
            \<and> accessors (h' ! r) = accessors (h ! self) @ [Key k]
            \<and> (\<forall>i<length h. h' ! i = h ! i))
       \<and> (case attribute_ref inherited h self a of (r, h') \<Rightarrow>
            r = NewPath (length h) \<and> length h < length h'
            \<and> accessors (h' ! length h) = accessors (h ! self) @ [Attr a]
            \<and> (\<forall>i<length h. h' ! i = h ! i))"
  using assms
  by (simp add: getitem_ref_def attribute_ref_def ObjType_getitem_def ObjType_getattr_def nth_append)

text \<open>
  C9, at a concrete store: \<^verbatim>\<open>Obj["a"]\<close> and then \<^verbatim>\<open>Obj.b\<close>, both derived from the
  shared base \<^verbatim>\<open>Obj\<close>, which keeps its empty step sequence.
\<close>

theorem derived_path_is_new_witness:
  "(0::nat) < length [Obj]
   \<and> fst (getitem_ref [Obj] 0 (KStr ''a'')) = 1
   \<and> accessors (snd (getitem_ref [Obj] 0 (KStr ''a'')) ! 1) = [Key (KStr ''a'')]
   \<and> accessors (snd (getitem_ref [Obj] 0 (KStr ''a'')) ! 0) = []
   \<and> fst (attribute_ref is_object_name (snd (getitem_ref [Obj] 0 (KStr ''a''))) 0 ''b'') = NewPath 2
   \<and> accessors (snd (attribute_ref is_object_name (snd (getitem_ref [Obj] 0 (KStr ''a''))) 0 ''b'') ! 2)
       = [Attr ''b'']
   \<and> accessors (snd (attribute_ref is_object_name (snd (getitem_ref [Obj] 0 (KStr ''a''))) 0 ''b'') ! 0)
       = []"
proof -
  have b: "''b'' \<noteq> ''__accessors__''" "''b'' \<noteq> ''__transforms__''" "''b'' \<notin> set ObjType_methods"
    "\<not> is_object_name ''b''"
    by (simp_all add: ObjType_methods_def is_object_name_def object_names_def)
  show ?thesis
    using derived_path_is_new [of 0 "[Obj]" "''b''" is_object_name "KStr ''a''"]
      derived_path_is_new [of 0 "snd (getitem_ref [Obj] 0 (KStr ''a''))" "''b''" is_object_name "KStr ''a''"]
      b
    by (simp add: getitem_ref_def attribute_ref_def ObjType_getitem_def ObjType_getattr_def Obj_def)
qed


text \<open>
  C10. When the steps before a \<^verbatim>\<open>Key\<close> step lead to a value \<open>cur\<close> and
  \<^verbatim>\<open>cur[k]\<close> raises an exception that is neither \<open>KeyError\<close> nor \<open>IndexError\<close>,
  the call raises that exception, whatever the default is and whatever steps follow;
  \<open>KeyError\<close> and \<open>IndexError\<close> are turned into the sentinel.
\<close>

theorem other_exception_propagates:
  assumes "accessors self = pre @ Key k # rest"
      and "walk (ObjType_repr self) pre obj dflt = Inr cur"
      and "subscript cur k = Inl e"
  shows "((\<forall>m. e \<noteq> KeyError m) \<and> (\<forall>m. e \<noteq> IndexError m) \<longrightarrow> ObjType_call self obj dflt = Inl e)
       \<and> ((\<exists>m. e = KeyError m \<or> e = IndexError m) \<longrightarrow> lookup (Key k) cur = Inr MISSING)"
proof -
  have "ObjType_call self obj dflt = Inl e"
    if "\<forall>m. e \<noteq> KeyError m" and "\<forall>m. e \<noteq> IndexError m"
  proof -
    from that assms(3) have "lookup (Key k) cur = Inl e"
      by (cases e) simp_all
    then have "walk (ObjType_repr self) (pre @ Key k # rest) obj dflt = Inl e"
      using assms(2) by (simp add: walk_append)
    then show ?thesis
      using assms(1) by (simp add: ObjType_call_def)
  qed
  moreover have "lookup (Key k) cur = Inr MISSING" if "\<exists>m. e = KeyError m \<or> e = IndexError m"
    using that assms(3) by auto
  ultimately show ?thesis by blast
qed

text \<open>
  C10, at \<^verbatim>\<open>Obj["a"]["b"]({"a": 5}, "d")\<close>: \<^verbatim>\<open>5["b"]\<close> raises \<open>TypeError\<close>, and so
  does the call, although a default was given. At \<^verbatim>\<open>{}["a"]\<close> the \<open>KeyError\<close> is
  caught and the step yields the sentinel.
\<close>

theorem other_exception_propagates_witness:
  "ObjType_call (ObjType_getitem (ObjType_getitem Obj (KStr ''a'')) (KStr ''b''))
     (PDict [(KStr ''a'', PInt 5)]) (PStr ''d'')
   = Inl (TypeError (CHR 0x27 # ''int'' @ CHR 0x27 # '' object is not subscriptable''))
   \<and> subscript (PDict []) (KStr ''a'') = Inl (KeyError (repr_key (KStr ''a'')))
   \<and> lookup (Key (KStr ''a'')) (PDict []) = Inr MISSING"
  using other_exception_propagates
    [of "ObjType_getitem (ObjType_getitem Obj (KStr ''a'')) (KStr ''b'')"
        "[Key (KStr ''a'')]" "KStr ''b''" "[]" "PDict [(KStr ''a'', PInt 5)]" "PStr ''d''" "PInt 5"
        "TypeError (CHR 0x27 # ''int'' @ CHR 0x27 # '' object is not subscriptable'')"]
    other_exception_propagates
    [of "ObjType_getitem Obj (KStr ''a'')" "[]" "KStr ''a''" "[]" "PDict []" "PStr ''d''" "PDict []"
        "KeyError (repr_key (KStr ''a''))"]
  by (simp add: ObjType_getitem_def Obj_def)

text \<open>
  The default is substituted inside the loop: a step that finds nothing continues the
  walk from the default, and the steps after it are looked up in the default.
\<close>

lemma walk_missing_step:
  assumes "walk nm pre obj dflt = Inr cur" and "lookup a cur = Inr MISSING"
  shows "walk nm (pre @ a # rest) obj dflt =
           (if dflt = NO_DEFAULT then Inl (KeyError nm) else walk nm rest dflt dflt)"
  using assms by (simp add: walk_append)

text \<open>
  C2. \<^verbatim>\<open>Obj["a"]["b"]({}, {"b": 7})\<close>: the first step fails, the default takes the
  place of the value at once, and the second step is applied to the default. The call
  returns \<open>7\<close>, not the default.
\<close>

theorem later_step_applied_to_default:
  "ObjType_call (ObjType_getitem (ObjType_getitem Obj (KStr ''a'')) (KStr ''b''))
     (PDict []) (PDict [(KStr ''b'', PInt 7)]) = Inr (PInt 7)"
  by (simp add: ObjType_call_def ObjType_getitem_def Obj_def)

text \<open>
  Without a default, the first step that finds nothing raises \<open>KeyError\<close> with
  \<^verbatim>\<open>repr(self)\<close> as its message: \<^verbatim>\<open>Obj\<close> followed by one segment per accessor, in
  order.
\<close>

lemma missing_without_default:
  assumes "accessors self = pre @ a # rest"
      and "walk (ObjType_repr self) pre obj NO_DEFAULT = Inr cur"
      and "lookup a cur = Inr MISSING"
  shows "ObjType_call self obj NO_DEFAULT
           = Inl (KeyError (concat (''Obj'' # map repr_part (pre @ a # rest))))"
  using assms walk_missing_step [OF assms(2,3), of rest]
  by (simp add: ObjType_call_def ObjType_repr_def)

lemma missing_without_default_example:
  "ObjType_call (ObjType_getattr (ObjType_getattr Obj ''a'') ''b'') (PStr ''foo'') NO_DEFAULT
     = Inl (KeyError ''Obj.a.b'')"
  by (simp add: ObjType_call_def ObjType_getattr_def Obj_def ObjType_repr_def)

text \<open>
  With a default, the default is the result when the step that finds nothing is the
  last one of a path without transforms.
\<close>

lemma default_at_last_step:
  assumes "accessors self = pre @ [a]" and "transforms self = []"
      and "walk (ObjType_repr self) pre obj dflt = Inr cur"
      and "lookup a cur = Inr MISSING" and "dflt \<noteq> NO_DEFAULT"
  shows "ObjType_call self obj dflt = Inr dflt"
  using assms walk_missing_step [OF assms(3,4), of "[]"]
  by (simp add: ObjType_call_def)

text \<open>
  C3. \<^verbatim>\<open>Obj["a"]["b"]({}, None)\<close>: the key \<^verbatim>\<open>"a"\<close> is absent and a default is given,
  but the call raises \<open>TypeError\<close>, since the second step indexes the default.
\<close>

theorem default_not_returned:
  "ObjType_call (ObjType_getitem (ObjType_getitem Obj (KStr ''a'')) (KStr ''b'')) (PDict []) PNone
     = Inl (TypeError (CHR 0x27 # ''NoneType'' @ CHR 0x27 # '' object is not subscriptable''))"
  by (simp add: ObjType_call_def ObjType_getitem_def Obj_def)

section \<open>Formatting a value\<close>

text \<open>
  \<^verbatim>\<open>None\<close> is replaced by the empty string before the test
  \<^verbatim>\<open>val is not None\<close>, so the formatter is applied to the empty string.
\<close>

lemma format_field_value_None:
  "formatter tf = Some f \<Longrightarrow> format_field_value tf PNone False ds = f (PStr [])"
  by (simp add: format_field_value_def split: sum.splits)

lemma format_field_value_not_None:
  "formatter tf = Some f \<Longrightarrow> v \<noteq> PNone \<Longrightarrow> format_field_value tf v False ds = f v"
  by (simp add: format_field_value_def split: sum.splits)

lemma format_field_value_default_formatter:
  "format_field_value TableField_default PNone False ds = Inr (Val (PStr []))"
  by (simp add: format_field_value_def TableField_default_def str_formatter_def)

text \<open>
  C6. With the formatter \<^verbatim>\<open>lambda x: f"${x}"\<close>, the value \<^verbatim>\<open>None\<close> is formatted as
  \<^verbatim>\<open>"$"\<close>: the formatter has run, and the cell is not empty.
\<close>

theorem None_is_formatted:
  "format_field_value (TableField_default\<lparr>formatter := Some dollar_formatter\<rparr>) PNone False []
     = Inr (Val (PStr ''$''))"
  by (simp add: format_field_value_def TableField_default_def dollar_formatter_def)

section \<open>Headers and footers\<close>

lemma mapE_Inr_length: "mapE f xs = Inr ys \<Longrightarrow> length ys = length xs"
  by (induction xs arbitrary: ys) (auto split: sum.splits)

text \<open>
  C1, counterexample. The footer \<^verbatim>\<open>lambda vs: vs[0] if vs else None\<close> of a field
  with the default formatter \<^verbatim>\<open>str\<close>, on an empty list of values: the reduction is
  \<^verbatim>\<open>None\<close> and the footer is \<^verbatim>\<open>None\<close> itself, not \<^verbatim>\<open>str(None)\<close>.
\<close>

theorem reducer_None_not_formatted:
  "footer first_footer_field = Reducer first_or_None
   \<and> formatter first_footer_field = Some str_formatter
   \<and> first_or_None [] = Inr PNone
   \<and> str_formatter PNone = Inr (Val (PStr ''None''))
   \<and> get_footer first_footer_field [] False [] = Inr (Val PNone)
   \<and> get_footer first_footer_field [] False [] \<noteq> str_formatter PNone"
  by (simp add: first_footer_field_def TableField_default_def get_footer_def
      reduce_and_format_def str_formatter_def)

lemma reduce_and_format_Literal: "reduce_and_format tf (Literal l) values = Inr l"
  by (simp add: reduce_and_format_def)

lemma reduce_and_format_Reducer:
  "reduce_and_format tf (Reducer r) values =
     (case r values of
        Inl e \<Rightarrow> Inl e
      | Inr v \<Rightarrow> (case formatter tf of
                    Some f \<Rightarrow> if v \<noteq> PNone then f v else Inr (Val v)
                  | None \<Rightarrow> Inr (Val v)))"
  by (simp add: reduce_and_format_def)

lemma build_field_content_headings:
  assumes "build_field_content tf items kw b = Inr c"
  shows "\<exists>values. mapE (get_field_value tf) items = Inr values
           \<and> get_header tf values b (get_or (opt_header_style kw) []) = Inr (fc_header c)
           \<and> get_footer tf values b (get_or (opt_footer_style kw) []) = Inr (fc_footer c)"
  using assms by (auto simp: build_field_content_def split: sum.splits)

text \<open>
  C1, as amended. A literal footer (header) is returned as it is, the formatter left
  aside. A reducer is applied to the list of values it is given, which in
  \<^verbatim>\<open>_build_field_content\<close> is the full list of extracted values before formatting;
  the reduction goes through the formatter when the field has one and the reduction is
  not \<^verbatim>\<open>None\<close>, and is returned as it is otherwise.
\<close>

theorem heading_literal_or_reduced:
  "(footer tf = Literal l \<longrightarrow> get_footer tf vals False ds = Inr l)
   \<and> (header tf = Literal l \<longrightarrow> get_header tf vals False ds = Inr l)
   \<and> (footer tf = Reducer r \<and> r vals = Inr v \<and> formatter tf = Some f \<and> v \<noteq> PNone
        \<longrightarrow> get_footer tf vals False ds = f v)
   \<and> (header tf = Reducer r \<and> r vals = Inr v \<and> formatter tf = Some f \<and> v \<noteq> PNone
        \<longrightarrow> get_header tf vals False ds = f v)
   \<and> (footer tf = Reducer r \<and> r vals = Inr v \<and> (formatter tf = None \<or> v = PNone)
        \<longrightarrow> get_footer tf vals False ds = Inr (Val v))
   \<and> (header tf = Reducer r \<and> r vals = Inr v \<and> (formatter tf = None \<or> v = PNone)
        \<longrightarrow> get_header tf vals False ds = Inr (Val v))
   \<and> (build_field_content tf items kw False = Inr c \<longrightarrow>
        (\<exists>vs. mapE (get_field_value tf) items = Inr vs
              \<and> get_header tf vs False (get_or (opt_header_style kw) []) = Inr (fc_header c)
              \<and> get_footer tf vs False (get_or (opt_footer_style kw) []) = Inr (fc_footer c)))"
proof -
  have 1: "footer tf = Literal l \<longrightarrow> get_footer tf vals False ds = Inr l"
    by (simp add: get_footer_def reduce_and_format_Literal)
  have 2: "header tf = Literal l \<longrightarrow> get_header tf vals False ds = Inr l"
    by (simp add: get_header_def reduce_and_format_Literal)
  have 3: "footer tf = Reducer r \<and> r vals = Inr v \<and> formatter tf = Some f \<and> v \<noteq> PNone
        \<longrightarrow> get_footer tf vals False ds = f v"
    by (simp add: get_footer_def reduce_and_format_Reducer split: sum.splits)
  have 4: "header tf = Reducer r \<and> r vals = Inr v \<and> formatter tf = Some f \<and> v \<noteq> PNone
        \<longrightarrow> get_header tf vals False ds = f v"
    by (simp add: get_header_def reduce_and_format_Reducer split: sum.splits)
  have 5: "footer tf = Reducer r \<and> r vals = Inr v \<and> (formatter tf = None \<or> v = PNone)
        \<longrightarrow> get_footer tf vals False ds = Inr (Val v)"
    by (auto simp: get_footer_def reduce_and_format_Reducer split: option.splits)
  have 6: "header tf = Reducer r \<and> r vals = Inr v \<and> (formatter tf = None \<or> v = PNone)
        \<longrightarrow> get_header tf vals False ds = Inr (Val v)"
    by (auto simp: get_header_def reduce_and_format_Reducer split: option.splits)
  have 7: "build_field_content tf items kw False = Inr c \<longrightarrow>
        (\<exists>vs. mapE (get_field_value tf) items = Inr vs
              \<and> get_header tf vs False (get_or (opt_header_style kw) []) = Inr (fc_header c)
              \<and> get_footer tf vs False (get_or (opt_footer_style kw) []) = Inr (fc_footer c))"
    using build_field_content_headings by blast
  from 1 2 3 4 5 6 7 show ?thesis by blast
qed


text \<open>
  C1, at concrete fields: the footer \<^verbatim>\<open>sum\<close> over \<open>[1, 2]\<close> is \<^verbatim>\<open>"3"\<close>, the
  literal header and footer \<^verbatim>\<open>""\<close> come back unchanged, and a \<^verbatim>\<open>None\<close>
  reduction is not formatted.
\<close>

theorem heading_literal_or_reduced_witness:
  "get_footer sum_footer_field [PInt 1, PInt 2] False [] = Inr (Val (PStr ''3''))
   \<and> get_header sum_footer_field [PInt 1, PInt 2] False [] = Inr (Val (PStr []))
   \<and> get_footer TableField_default [PInt 1, PInt 2] False [] = Inr (Val (PStr []))
   \<and> get_footer first_footer_field [] False [] = Inr (Val PNone)
   \<and> build_field_content sum_footer_field [PInt 1, PInt 2] no_options False
       = Inr \<lparr>fc_header = Val (PStr []), fc_values = [Val (PStr ''1''), Val (PStr ''2'')],
              fc_footer = Val (PStr ''3'')\<rparr>"
proof -
  have b: "build_field_content sum_footer_field [PInt 1, PInt 2] no_options False
       = Inr \<lparr>fc_header = Val (PStr []), fc_values = [Val (PStr ''1''), Val (PStr ''2'')],
              fc_footer = Val (PStr ''3'')\<rparr>"
    by (simp add: build_field_content_def sum_footer_field_def TableField_default_def
        get_field_value_def Obj_def ObjType_call_def get_header_def get_footer_def
        reduce_and_format_def py_sum_def str_formatter_def format_field_value_def no_options_def
        get_or_def str_of_int_def str_of_nat.simps digit_char_def)
  show ?thesis
    using b
      heading_literal_or_reduced [where tf = sum_footer_field and l = "Val (PStr [])"
        and vals = "[PInt 1, PInt 2]" and ds = "[]" and r = py_sum and v = "PInt 3"
        and f = str_formatter and items = "[PInt 1, PInt 2]" and kw = no_options
        and c = "\<lparr>fc_header = Val (PStr []), fc_values = [Val (PStr ''1''), Val (PStr ''2'')],
              fc_footer = Val (PStr ''3'')\<rparr>"]
      heading_literal_or_reduced [where tf = TableField_default and l = "Val (PStr [])"
        and vals = "[PInt 1, PInt 2]" and ds = "[]"]
      heading_literal_or_reduced [where tf = first_footer_field and vals = "[]" and ds = "[]"
        and r = first_or_None and v = PNone]
    by (simp add: sum_footer_field_def first_footer_field_def TableField_default_def py_sum_def
        str_formatter_def str_of_int_def str_of_nat.simps digit_char_def)
qed

section \<open>The key of a field\<close>

lemma subscript_not_invalid: "subscript obj k = Inl e \<Longrightarrow> \<not> invalid_key_error e"
  by (cases obj; cases k) (auto split: option.splits)

lemma lookup_not_invalid: "lookup a obj = Inl e \<Longrightarrow> \<not> invalid_key_error e"
  by (cases a) (auto split: sum.splits error.splits dest: subscript_not_invalid)

lemma walk_not_invalid: "walk nm as obj dflt = Inl e \<Longrightarrow> \<not> invalid_key_error e"
  by (induction as arbitrary: obj) (auto split: sum.splits if_splits dest: lookup_not_invalid)

lemma apply_transforms_not_invalid:
  "\<forall>t \<in> set ts. no_invalid_key t \<Longrightarrow> apply_transforms ts v = Inl e \<Longrightarrow> \<not> invalid_key_error e"
  by (induction ts arbitrary: v) (auto simp: no_invalid_key_def split: sum.splits)

lemma call_getter_not_invalid:
  assumes "getter_ok g" and "call_getter g obj dflt = Inl e"
  shows "\<not> invalid_key_error e"
proof (cases g)
  case (GObj p)
  with assms(1) have ts: "\<forall>t \<in> set (transforms p). no_invalid_key t" by simp
  from assms(2) GObj have "ObjType_call p obj dflt = Inl e" by simp
  then show ?thesis
    using walk_not_invalid apply_transforms_not_invalid [OF ts]
    by (auto simp: ObjType_call_def split: sum.splits)
next
  case (GFun f)
  with assms show ?thesis by (auto simp: no_invalid_key_def)
qed

lemma get_field_value_not_invalid:
  "callables_ok tf \<Longrightarrow> get_field_value tf obj = Inl e \<Longrightarrow> \<not> invalid_key_error e"
  by (auto simp: get_field_value_def callables_ok_def split: sum.splits dest: call_getter_not_invalid)

lemma format_field_value_not_invalid:
  "callables_ok tf \<Longrightarrow> format_field_value tf v b ds = Inl e \<Longrightarrow> \<not> invalid_key_error e"
  by (auto simp: format_field_value_def callables_ok_def no_invalid_key_def Let_def
           split: sum.splits option.splits if_splits)

lemma reduce_and_format_not_invalid:
  "heading_ok rx \<Longrightarrow> (case formatter tf of None \<Rightarrow> True | Some f \<Rightarrow> no_invalid_key f) \<Longrightarrow>
   reduce_and_format tf rx values = Inl e \<Longrightarrow> \<not> invalid_key_error e"
  by (cases rx)
     (auto simp: reduce_and_format_def no_invalid_key_def split: sum.splits option.splits if_splits)

lemma get_header_not_invalid:
  "callables_ok tf \<Longrightarrow> get_header tf values b ds = Inl e \<Longrightarrow> \<not> invalid_key_error e"
  by (auto simp: get_header_def callables_ok_def split: sum.splits dest: reduce_and_format_not_invalid)

lemma get_footer_not_invalid:
  "callables_ok tf \<Longrightarrow> get_footer tf values b ds = Inl e \<Longrightarrow> \<not> invalid_key_error e"
  by (auto simp: get_footer_def callables_ok_def split: sum.splits dest: reduce_and_format_not_invalid)

lemma mapE_Inl: "mapE f xs = Inl e \<Longrightarrow> \<exists>x \<in> set xs. f x = Inl e"
  by (induction xs) (auto split: sum.splits)

lemma build_field_content_not_invalid:
  assumes "callables_ok tf" and "build_field_content tf items kw b = Inl e"
  shows "\<not> invalid_key_error e"
  using assms(2)
  by (auto simp: build_field_content_def split: sum.splits
      dest!: mapE_Inl
      dest: get_field_value_not_invalid [OF assms(1)] format_field_value_not_invalid [OF assms(1)]
            get_header_not_invalid [OF assms(1)] get_footer_not_invalid [OF assms(1)])

lemma append_cells_not_invalid: "append_cells rows vs = Inl e \<Longrightarrow> \<not> invalid_key_error e"
  by (induction rows vs rule: append_cells.induct) (auto split: sum.splits)

lemma normal_fields_not_invalid:
  "\<forall>tf \<in> set tfs. callables_ok tf \<Longrightarrow> normal_fields tfs items kw cols rows = Inl e \<Longrightarrow>
   \<not> invalid_key_error e"
  by (induction tfs arbitrary: cols rows)
     (auto split: sum.splits dest: build_field_content_not_invalid append_cells_not_invalid)

lemma add_row_not_invalid: "add_row row = Inl e \<Longrightarrow> \<not> invalid_key_error e"
  by (auto simp: add_row_def split: option.splits)

lemma add_rows_not_invalid: "add_rows cur xs = Inl e \<Longrightarrow> \<not> invalid_key_error e"
  by (induction cur xs rule: add_rows.induct)
     (auto split: sum.splits if_splits dest: add_row_not_invalid)

lemma build_table_normal_not_invalid:
  "\<forall>tf \<in> set tfs. callables_ok tf \<Longrightarrow> build_table_normal tfs sb items kw = Inl e \<Longrightarrow>
   \<not> invalid_key_error e"
  by (auto simp: build_table_normal_def Let_def split: sum.splits if_splits list.splits prod.splits
           dest: normal_fields_not_invalid add_rows_not_invalid)

lemma transposed_row_not_invalid:
  "callables_ok tf \<Longrightarrow> transposed_row kw values sh sf tf = Inl e \<Longrightarrow> \<not> invalid_key_error e"
  by (auto simp: transposed_row_def split: sum.splits dest: build_field_content_not_invalid)

lemma build_table_transposed_not_invalid:
  assumes "\<forall>tf \<in> set tfs. callables_ok tf" and "build_table_transposed tfs values kw = Inl e"
  shows "\<not> invalid_key_error e"
proof -
  from assms(2) obtain kw' sh sf where
    "mapE (transposed_row kw' values sh sf) tfs = Inl e \<or> (\<exists>rows. mapE add_row rows = Inl e)"
    by (auto simp: build_table_transposed_def Let_def split: sum.splits)
  then show ?thesis
  proof
    assume "mapE (transposed_row kw' values sh sf) tfs = Inl e"
    then obtain tf where "tf \<in> set tfs" and "transposed_row kw' values sh sf tf = Inl e"
      by (auto dest: mapE_Inl)
    with assms(1) show ?thesis
      by (auto dest: transposed_row_not_invalid)
  next
    assume "\<exists>rows. mapE add_row rows = Inl e"
    then show ?thesis
      by (auto dest: mapE_Inl add_row_not_invalid)
  qed
qed

lemma build_table_not_invalid:
  "\<forall>tf \<in> set (table_fields b). callables_ok tf \<Longrightarrow> build_table b items kw tr = Inl e \<Longrightarrow>
   \<not> invalid_key_error e"
  by (auto simp: build_table_def split: if_splits
           dest: build_table_normal_not_invalid build_table_transposed_not_invalid)

text \<open>
  C7. A key that is neither \<^verbatim>\<open>None\<close>, nor callable, nor a string makes
  \<^verbatim>\<open>TableField.__init__\<close> raise \<open>TypeError\<close> with the message
  \<^verbatim>\<open>Invalid key type: ...\<close>; for \<^verbatim>\<open>None\<close>, a string or a callable the field is
  created, with the identity path, the one-step path or the callable as its getter. A
  build raises no exception of that kind, as long as the user's callables raise none.
\<close>

theorem invalid_key_fails_at_declaration:
  "(v \<noteq> PNone \<and> (\<forall>s. v \<noteq> PStr s) \<longrightarrow>
      TableField_init h f (KeyValue v) d fmt st hs fs j = Inl (TypeError (invalid_key_message v))
      \<and> invalid_key_error (TypeError (invalid_key_message v)))
   \<and> (\<exists>tf. TableField_init h f (KeyValue PNone) d fmt st hs fs j = Inr tf \<and> getter tf = GObj Obj)
   \<and> (\<exists>tf. TableField_init h f (KeyValue (PStr s)) d fmt st hs fs j = Inr tf
            \<and> getter tf = GObj (ObjType_getitem Obj (KStr s)))
   \<and> (\<exists>tf. TableField_init h f (KeyCallable g) d fmt st hs fs j = Inr tf \<and> getter tf = g)
   \<and> ((\<forall>tf \<in> set (table_fields b). callables_ok tf) \<and> TableBuilder_call b data tr kw = Inl e
        \<longrightarrow> \<not> invalid_key_error e)"
proof -
  have 1: "v \<noteq> PNone \<and> (\<forall>s. v \<noteq> PStr s) \<longrightarrow>
      TableField_init h f (KeyValue v) d fmt st hs fs j = Inl (TypeError (invalid_key_message v))
      \<and> invalid_key_error (TypeError (invalid_key_message v))"
    by (cases v) (simp_all add: TableField_init_def invalid_key_message_def)
  have 2: "(\<forall>tf \<in> set (table_fields b). callables_ok tf) \<and> TableBuilder_call b data tr kw = Inl e
        \<longrightarrow> \<not> invalid_key_error e"
    using build_table_not_invalid [of b data "update_options (default_table_kwargs b) kw" "Some tr" e]
    by (auto simp: TableBuilder_call_def)
  show ?thesis
    using 1 2 by (simp add: TableField_init_def)
qed


text \<open>
  C7, at \<^verbatim>\<open>key=42\<close>, and at a build that fails: a field with the key
  \<^verbatim>\<open>Obj["a"]["b"]\<close> over the record \<^verbatim>\<open>{}\<close> raises a \<open>TypeError\<close> of another kind.
\<close>

theorem invalid_key_fails_at_declaration_witness:
  "TableField_init (Literal (Val (PStr ''A''))) (Literal (Val (PStr []))) (KeyValue (PInt 42)) PNone
       (Some str_formatter) [] [] [] ''left''
     = Inl (TypeError (''Invalid key type: <class '' @ CHR 0x27 # ''int'' @ CHR 0x27 # ''>''))
   \<and> TableBuilder_call (TableBuilder_init [nested_key_field] False (None :: (pyval \<Rightarrow> nat) option) no_options)
         [PDict []] False no_options
     = Inl (TypeError (CHR 0x27 # ''NoneType'' @ CHR 0x27 # '' object is not subscriptable''))
   \<and> \<not> invalid_key_error (TypeError (CHR 0x27 # ''NoneType'' @ CHR 0x27 # '' object is not subscriptable''))"
proof -
  have ok: "\<forall>tf \<in> set (table_fields (TableBuilder_init [nested_key_field] False (None :: (pyval \<Rightarrow> nat) option) no_options)). callables_ok tf"
    by (simp add: TableBuilder_init_def nested_key_field_def TableField_default_def callables_ok_def
        ObjType_getitem_def Obj_def no_invalid_key_def str_formatter_def)
  have b: "TableBuilder_call (TableBuilder_init [nested_key_field] False (None :: (pyval \<Rightarrow> nat) option) no_options)
         [PDict []] False no_options
     = Inl (TypeError (CHR 0x27 # ''NoneType'' @ CHR 0x27 # '' object is not subscriptable''))"
    by (simp add: TableBuilder_call_def TableBuilder_init_def build_table_def build_table_normal_def
        section_sorted_def markers_of_def
        build_field_content_def nested_key_field_def TableField_default_def get_field_value_def
        ObjType_call_def ObjType_getitem_def Obj_def)
  show ?thesis
    using ok b
      invalid_key_fails_at_declaration [where v = "PInt 42" and h = "Literal (Val (PStr ''A''))"
        and f = "Literal (Val (PStr []))" and d = PNone and fmt = "Some str_formatter"
        and st = "[]" and hs = "[]" and fs = "[]" and j = "''left''"
        and b = "TableBuilder_init [nested_key_field] False (None :: (pyval \<Rightarrow> nat) option) no_options"
        and data = "[PDict []]" and tr = False and kw = no_options
        and e = "TypeError (CHR 0x27 # ''NoneType'' @ CHR 0x27 # '' object is not subscriptable'')"]
    by (simp add: invalid_key_message_def)
qed

section \<open>Styles by value\<close>

lemma format_value_unseen:
  "seen_values st v = None \<Longrightarrow> next_style (gen st) = (Inr s, g') \<Longrightarrow>
   format_value next_style v st = (Inr (v, s), st\<lparr>seen_values := (seen_values st)(v \<mapsto> s), gen := g'\<rparr>)"
  by (simp add: format_value_def)

lemma format_value_seen:
  "seen_values st v = Some s \<Longrightarrow> format_value next_style v st = (Inr (v, s), st)"
  by (simp add: format_value_def)

lemma format_value_keeps:
  "seen_values st v = Some s \<Longrightarrow> seen_values (snd (format_value next_style w st)) v = Some s"
  by (auto simp: format_value_def split: option.splits prod.splits sum.splits)

lemma format_value_records:
  "fst (format_value next_style v st) = Inr (w, s) \<Longrightarrow>
   w = v \<and> seen_values (snd (format_value next_style v st)) v = Some s"
  by (auto simp: format_value_def split: option.splits prod.splits sum.splits)

lemma format_values_Cons_fst:
  "fst (format_values next_style (v # vs) st) =
     fst (format_value next_style v st)
     # fst (format_values next_style vs (snd (format_value next_style v st)))"
  by (simp add: case_prod_beta)

lemma format_values_Cons_snd:
  "snd (format_values next_style (v # vs) st) =
     snd (format_values next_style vs (snd (format_value next_style v st)))"
  by (simp add: case_prod_beta)

lemma format_values_keeps:
  "seen_values st v = Some s \<Longrightarrow> seen_values (snd (format_values next_style vs st)) v = Some s"
proof (induction vs arbitrary: st)
  case Nil
  then show ?case by simp
next
  case (Cons w vs)
  from Cons.prems have "seen_values (snd (format_value next_style w st)) v = Some s"
    by (rule format_value_keeps)
  then have "seen_values (snd (format_values next_style vs (snd (format_value next_style w st)))) v = Some s"
    by (rule Cons.IH)
  then show ?case
    by (simp only: format_values_Cons_snd)
qed

lemma format_values_seen:
  "seen_values st v = Some s \<Longrightarrow> j < length vs \<Longrightarrow> vs ! j = v \<Longrightarrow>
   fst (format_values next_style vs st) ! j = Inr (v, s)"
proof (induction vs arbitrary: st j)
  case Nil
  then show ?case by simp
next
  case (Cons w vs)
  show ?case
  proof (cases j)
    case 0
    with Cons.prems show ?thesis
      by (simp add: format_values_Cons_fst format_value_seen del: format_values.simps)
  next
    case (Suc j')
    from Cons.prems(1) have "seen_values (snd (format_value next_style w st)) v = Some s"
      by (rule format_value_keeps)
    then have "fst (format_values next_style vs (snd (format_value next_style w st))) ! j' = Inr (v, s)"
      using Cons.prems Suc by (intro Cons.IH) auto
    then show ?thesis
      using Suc by (simp add: format_values_Cons_fst del: format_values.simps)
  qed
qed

lemma format_values_repeat:
  "i < j \<Longrightarrow> j < length vs \<Longrightarrow> vs ! j = vs ! i \<Longrightarrow>
   fst (format_values next_style vs st) ! i = Inr (w, s) \<Longrightarrow>
   fst (format_values next_style vs st) ! j = Inr (vs ! i, s)"
proof (induction vs arbitrary: st i j)
  case Nil
  then show ?case by simp
next
  case (Cons x vs)
  obtain j' where j: "j = Suc j'"
    using Cons.prems(1) by (cases j) auto
  show ?case
  proof (cases i)
    case 0
    with Cons.prems(4) have "fst (format_value next_style x st) = Inr (w, s)"
      by (simp add: format_values_Cons_fst del: format_values.simps)
    then have "seen_values (snd (format_value next_style x st)) x = Some s"
      using format_value_records by fastforce
    moreover have "j' < length vs" and "vs ! j' = x"
      using Cons.prems j 0 by auto
    ultimately have "fst (format_values next_style vs (snd (format_value next_style x st))) ! j' = Inr (x, s)"
      by (rule format_values_seen)
    then show ?thesis
      using j 0 by (simp add: format_values_Cons_fst del: format_values.simps)
  next
    case (Suc i')
    have "fst (format_values next_style vs (snd (format_value next_style x st))) ! j' = Inr (vs ! i', s)"
      using Cons.prems j Suc
      by (intro Cons.IH) (simp_all add: format_values_Cons_fst del: format_values.simps)
    then show ?thesis
      using j Suc by (simp add: format_values_Cons_fst del: format_values.simps)
  qed
qed

text \<open>
  C8. An application to a value not in the memo takes the generator's next style, returns
  it and records it. An application to a value in the memo returns the recorded style and
  changes nothing, and no later application of the instance changes that entry. So in any
  sequence of applications of one instance, from any state, a later application to a
  value equal to an earlier one returns the style the earlier one returned. The memo is
  part of the instance's own state, which only \<^const>\<open>format_value\<close> updates.
\<close>

theorem memo_returns_first_style:
  "(seen_values st v = None \<and> next_style (gen st) = (Inr s, g') \<longrightarrow>
      format_value next_style v st
        = (Inr (v, s), st\<lparr>seen_values := (seen_values st)(v \<mapsto> s), gen := g'\<rparr>))
   \<and> (seen_values st v = Some s \<longrightarrow>
        format_value next_style v st = (Inr (v, s), st)
        \<and> seen_values (snd (format_values next_style vs st)) v = Some s)
   \<and> (i < j \<and> j < length vs \<and> vs ! j = vs ! i
        \<and> fst (format_values next_style vs st) ! i = Inr (w, s)
        \<longrightarrow> fst (format_values next_style vs st) ! j = Inr (vs ! i, s))"
  using format_value_unseen [of st v next_style s g'] format_value_seen [of st v s next_style]
    format_values_keeps [of st v s next_style vs] format_values_repeat [of i j vs next_style st w s]
  by blast

text \<open>
  C8, with \<^verbatim>\<open>rainbow_cycle\<close> as generator: \<^verbatim>\<open>"A"\<close>, \<^verbatim>\<open>"B"\<close>, \<^verbatim>\<open>"A"\<close> are styled
  red, orange1, red.
\<close>

theorem memo_returns_first_style_witness:
  "format_value rainbow_cycle ''A'' (style_by_value 0)
     = (Inr (''A'', ''red''), \<lparr>seen_values = [''A'' \<mapsto> ''red''], gen = 1\<rparr>)
   \<and> format_value rainbow_cycle ''A'' \<lparr>seen_values = [''A'' \<mapsto> ''red''], gen = 1\<rparr>
     = (Inr (''A'', ''red''), \<lparr>seen_values = [''A'' \<mapsto> ''red''], gen = 1\<rparr>)
   \<and> fst (format_values rainbow_cycle [''A'', ''B'', ''A''] (style_by_value 0))
     = [Inr (''A'', ''red''), Inr (''B'', ''orange1''), Inr (''A'', ''red'')]"
proof -
  have run: "format_values rainbow_cycle [''A'', ''B'', ''A''] (style_by_value 0)
    = ([Inr (''A'', ''red''), Inr (''B'', ''orange1''), Inr (''A'', ''red'')],
       \<lparr>seen_values = [''A'' \<mapsto> ''red'', ''B'' \<mapsto> ''orange1''], gen = 2\<rparr>)"
    by (simp add: format_value_def style_by_value_def rainbow_cycle_def py_index_def RAINBOW_COLORS_def)
  have first: "rainbow_cycle 0 = (Inr ''red'', 1)"
    by (simp add: rainbow_cycle_def py_index_def RAINBOW_COLORS_def)
  show ?thesis
    using run first
      memo_returns_first_style [where st = "style_by_value 0" and v = "''A''"
        and next_style = rainbow_cycle and s = "''red''" and g' = 1
        and vs = "[''A'', ''B'', ''A'']" and i = 0 and j = 2 and w = "''A''"]
      memo_returns_first_style [where st = "\<lparr>seen_values = [''A'' \<mapsto> ''red''], gen = 1\<rparr>"
        and v = "''A''" and next_style = rainbow_cycle and s = "''red''" and vs = "[]"]
    by (simp add: style_by_value_def)
qed

section \<open>Building a table\<close>

lemma mapE_Inr_iff:
  "mapE f xs = Inr ys \<longleftrightarrow> length ys = length xs \<and> (\<forall>i<length xs. f (xs ! i) = Inr (ys ! i))"
proof (induction xs arbitrary: ys)
  case Nil
  then show ?case by auto
next
  case (Cons x xs)
  show ?case
  proof (cases ys)
    case Nil
    then show ?thesis by (auto split: sum.splits)
  next
    case (Cons y ys')
    have "(\<forall>i<Suc (length xs). f ((x # xs) ! i) = Inr ((y # ys') ! i))
          \<longleftrightarrow> f x = Inr y \<and> (\<forall>i<length xs. f (xs ! i) = Inr (ys' ! i))"
      by (auto simp: less_Suc_eq_0_disj)
    then show ?thesis
      using Cons Cons.IH [of ys'] by (auto split: sum.splits)
  qed
qed

lemma mapE_succeeds: "\<forall>x \<in> set xs. \<exists>y. f x = Inr y \<Longrightarrow> \<exists>ys. mapE f xs = Inr ys"
  by (induction xs) (auto split: sum.splits)

lemma build_field_content_cells:
  assumes "build_field_content tf items kw b = Inr c"
  shows "length (fc_values c) = length items
         \<and> (\<forall>i<length items. field_cell kw b (items ! i) tf = Inr (fc_values c ! i))"
proof -
  from assms obtain vs where
    vs: "mapE (get_field_value tf) items = Inr vs" and
    fs: "mapE (\<lambda>v. format_field_value tf v b (get_or (opt_style kw) [])) vs = Inr (fc_values c)"
    by (auto simp: build_field_content_def split: sum.splits)
  from vs have 1: "length vs = length items" "\<forall>i<length items. get_field_value tf (items ! i) = Inr (vs ! i)"
    by (simp_all add: mapE_Inr_iff)
  from fs have 2: "length (fc_values c) = length vs"
    "\<forall>i<length vs. format_field_value tf (vs ! i) b (get_or (opt_style kw) []) = Inr (fc_values c ! i)"
    by (simp_all add: mapE_Inr_iff)
  from 1 2 show ?thesis
    by (simp add: field_cell_def)
qed

lemma transposed_row_length:
  assumes "transposed_row kw vals sh sf tf = Inr row"
  shows "\<exists>c. build_field_content tf vals kw True = Inr c
        \<and> row = (if sh then [or_empty (fc_header c)] else []) @ fc_values c
                 @ (if sf then [or_empty (fc_footer c)] else [])
        \<and> length row = length vals + of_bool sh + of_bool sf
        \<and> (\<forall>k<length vals. field_cell kw True (vals ! k) tf = Inr (fc_values c ! k))"
proof -
  from assms obtain c where c: "build_field_content tf vals kw True = Inr c"
    and row: "row = (if sh then [or_empty (fc_header c)] else []) @ fc_values c
                 @ (if sf then [or_empty (fc_footer c)] else [])"
    by (auto simp: transposed_row_def split: sum.splits)
  note cells = build_field_content_cells [OF c]
  from row cells have "length row = length vals + of_bool sh + of_bool sf"
    by simp
  with c row cells show ?thesis
    by blast
qed


lemma mapE_Inr_all: "mapE f xs = Inr ys \<Longrightarrow> \<forall>x \<in> set xs. \<exists>y. f x = Inr y"
  by (induction xs arbitrary: ys) (auto split: sum.splits)

text \<open>
  \<^verbatim>\<open>add_row\<close> accepts a row exactly when each cell is \<^verbatim>\<open>None\<close> or a renderable.
  Every cell of a transposed build is a \<^verbatim>\<open>Text\<close>, a \<^verbatim>\<open>Styled\<close> or the empty
  string, so \<^verbatim>\<open>add_row\<close> never raises there.
\<close>

lemma add_row_accepted: "\<forall>c \<in> set row. accepted_cell c \<Longrightarrow> add_row row = Inr (AddRow row)"
  by (auto simp: add_row_def find_None_iff split: option.splits)

lemma add_row_Inr: "add_row row = Inr r \<Longrightarrow> r = AddRow row \<and> (\<forall>c \<in> set row. accepted_cell c)"
  by (auto simp: add_row_def find_None_iff split: option.splits)

lemma add_row_Inl: "add_row row = Inl e \<Longrightarrow> \<exists>m. e = NotRenderableError m"
  by (auto simp: add_row_def split: option.splits)

lemma mapE_add_row: "\<forall>row \<in> set rows. \<forall>c \<in> set row. accepted_cell c \<Longrightarrow> mapE add_row rows = Inr (map AddRow rows)"
  by (induction rows) (simp_all add: add_row_accepted)

lemma accepted_apply_style: "accepted_cell (apply_style_to r st)"
  by (cases "(r, st)" rule: apply_style_to.cases) (simp_all add: accepted_cell_def)

lemma accepted_or_empty: "accepted_cell r \<Longrightarrow> accepted_cell (or_empty r)"
  by (simp add: or_empty_def accepted_cell_def)

lemma build_field_content_styled:
  assumes "build_field_content tf vals kw True = Inr c"
  shows "accepted_cell (fc_header c) \<and> accepted_cell (fc_footer c)
         \<and> (\<forall>x \<in> set (fc_values c). accepted_cell x)"
proof -
  from assms obtain vs where
    h: "get_header tf vs True (get_or (opt_header_style kw) []) = Inr (fc_header c)" and
    f: "get_footer tf vs True (get_or (opt_footer_style kw) []) = Inr (fc_footer c)" and
    m: "mapE (\<lambda>v. format_field_value tf v True (get_or (opt_style kw) [])) vs = Inr (fc_values c)"
    by (auto simp: build_field_content_def split: sum.splits)
  from h have "\<exists>v st. apply_style_to v st = fc_header c"
    by (auto simp: get_header_def split: sum.splits)
  then have 1: "accepted_cell (fc_header c)"
    by (metis accepted_apply_style)
  from f have "\<exists>v st. apply_style_to v st = fc_footer c"
    by (auto simp: get_footer_def split: sum.splits)
  then have 2: "accepted_cell (fc_footer c)"
    by (metis accepted_apply_style)
  have 3: "accepted_cell x" if "x \<in> set (fc_values c)" for x
  proof -
    from that obtain i where i: "i < length (fc_values c)" and x: "x = fc_values c ! i"
      by (auto simp: in_set_conv_nth)
    with m have "format_field_value tf (vs ! i) True (get_or (opt_style kw) []) = Inr x"
      by (simp add: mapE_Inr_iff)
    then have "\<exists>v st. apply_style_to v st = x"
      by (auto simp: format_field_value_def Let_def split: sum.splits)
    then show ?thesis
      by (metis accepted_apply_style)
  qed
  from 1 2 3 show ?thesis by blast
qed

lemma transposed_row_accepted:
  assumes "transposed_row kw vals sh sf tf = Inr row"
  shows "\<forall>c \<in> set row. accepted_cell c"
proof -
  from transposed_row_length [OF assms] obtain c where
    c: "build_field_content tf vals kw True = Inr c" and
    row: "row = (if sh then [or_empty (fc_header c)] else []) @ fc_values c
                 @ (if sf then [or_empty (fc_footer c)] else [])"
    by blast
  from build_field_content_styled [OF c] show ?thesis
    unfolding row by (auto simp: accepted_or_empty)
qed

lemma build_table_transposed_eq:
  "build_table_transposed tfs vals kw =
     (case mapE (transposed_row (kw\<lparr>opt_show_header := Some False, opt_show_footer := Some False\<rparr>)
                   vals (get_or (opt_show_header kw) True) (get_or (opt_show_footer kw) False)) tfs of
        Inl e \<Rightarrow> Inl e
      | Inr rows \<Rightarrow>
          Inr \<lparr>t_columns = map (\<lambda>n. Column_init (''row'' @ str_of_nat n))
                            [0..<length vals + of_bool (get_or (opt_show_header kw) True)
                                 + of_bool (get_or (opt_show_footer kw) False)],
               t_kwargs = kw\<lparr>opt_show_header := Some False, opt_show_footer := Some False\<rparr>,
               t_ops = map AddRow rows\<rparr>)"
proof (cases "mapE (transposed_row (kw\<lparr>opt_show_header := Some False, opt_show_footer := Some False\<rparr>)
                   vals (get_or (opt_show_header kw) True) (get_or (opt_show_footer kw) False)) tfs")
  case (Inl e)
  then show ?thesis
    by (simp add: build_table_transposed_def Let_def)
next
  case (Inr rows)
  have "\<forall>c \<in> set row. accepted_cell c" if "row \<in> set rows" for row
  proof -
    from that obtain i where "i < length rows" and "row = rows ! i"
      by (auto simp: in_set_conv_nth)
    with Inr have "transposed_row (kw\<lparr>opt_show_header := Some False, opt_show_footer := Some False\<rparr>)
                   vals (get_or (opt_show_header kw) True) (get_or (opt_show_footer kw) False) (tfs ! i) = Inr row"
      by (simp add: mapE_Inr_iff)
    then show ?thesis
      by (rule transposed_row_accepted)
  qed
  then have "\<forall>row \<in> set rows. \<forall>c \<in> set row. accepted_cell c"
    by blast
  then have "mapE add_row rows = Inr (map AddRow rows)"
    by (rule mapE_add_row)
  with Inr show ?thesis
    by (simp add: build_table_transposed_def Let_def)
qed

text \<open>
  C4. The transposed build returns a table exactly when the content of every field can
  be built (with \<^verbatim>\<open>show_header\<close> and \<^verbatim>\<open>show_footer\<close> already forced off in the
  options); otherwise it raises what building the content of a field raised. The table
  it returns hands the collaborator options in which \<^verbatim>\<open>show_header\<close> and
  \<^verbatim>\<open>show_footer\<close> are \<open>False\<close> (all other options as given),
  \<open>len(values) + show_header + show_footer\<close> columns, and one \<^verbatim>\<open>add_row\<close> per field,
  in declaration order and nothing else. The row of a field is its header cell if
  \<^verbatim>\<open>show_header\<close> was set, then one cell per record in order, then its footer cell if
  \<^verbatim>\<open>show_footer\<close> was set; its length is the number of columns.
\<close>

theorem transposed_build_shape:
  "((\<exists>t. build_table_transposed tfs vals kw = Inr t) \<longleftrightarrow>
      (\<forall>tf \<in> set tfs. \<exists>c. build_field_content tf vals
           (kw\<lparr>opt_show_header := Some False, opt_show_footer := Some False\<rparr>) True = Inr c))
   \<and> (\<forall>e. build_table_transposed tfs vals kw = Inl e \<longrightarrow>
        (\<exists>tf \<in> set tfs. build_field_content tf vals
           (kw\<lparr>opt_show_header := Some False, opt_show_footer := Some False\<rparr>) True = Inl e))
   \<and> (\<forall>t. build_table_transposed tfs vals kw = Inr t \<longrightarrow>
        opt_show_header (t_kwargs t) = Some False \<and> opt_show_footer (t_kwargs t) = Some False
        \<and> t_kwargs t = kw\<lparr>opt_show_header := Some False, opt_show_footer := Some False\<rparr>
        \<and> length (t_columns t)
            = length vals + of_bool (get_or (opt_show_header kw) True) + of_bool (get_or (opt_show_footer kw) False)
        \<and> (\<exists>rows. t_ops t = map AddRow rows \<and> length rows = length tfs
             \<and> (\<forall>i<length tfs. \<exists>c.
                   build_field_content (tfs ! i) vals (t_kwargs t) True = Inr c
                   \<and> rows ! i = (if get_or (opt_show_header kw) True then [or_empty (fc_header c)] else [])
                                @ fc_values c
                                @ (if get_or (opt_show_footer kw) False then [or_empty (fc_footer c)] else [])
                   \<and> length (rows ! i)
                       = length vals + of_bool (get_or (opt_show_header kw) True)
                         + of_bool (get_or (opt_show_footer kw) False)
                   \<and> (\<forall>k<length vals. field_cell (t_kwargs t) True (vals ! k) (tfs ! i) = Inr (fc_values c ! k)))))"
proof -
  let ?sh = "get_or (opt_show_header kw) True"
  let ?sf = "get_or (opt_show_footer kw) False"
  let ?kw = "kw\<lparr>opt_show_header := Some False, opt_show_footer := Some False\<rparr>"
  let ?rows = "mapE (transposed_row ?kw vals ?sh ?sf) tfs"
  note eq = build_table_transposed_eq [of tfs vals kw]
  have ok: "(\<exists>t. build_table_transposed tfs vals kw = Inr t) \<longleftrightarrow>
      (\<forall>tf \<in> set tfs. \<exists>c. build_field_content tf vals ?kw True = Inr c)"
  proof
    assume "\<exists>t. build_table_transposed tfs vals kw = Inr t"
    then obtain rows where "?rows = Inr rows"
      unfolding eq by (auto split: sum.splits)
    then have "\<forall>tf \<in> set tfs. \<exists>row. transposed_row ?kw vals ?sh ?sf tf = Inr row"
      by (rule mapE_Inr_all)
    then show "\<forall>tf \<in> set tfs. \<exists>c. build_field_content tf vals ?kw True = Inr c"
      using transposed_row_length by blast
  next
    assume "\<forall>tf \<in> set tfs. \<exists>c. build_field_content tf vals ?kw True = Inr c"
    then have "\<exists>rows. ?rows = Inr rows"
      by (intro mapE_succeeds) (auto simp: transposed_row_def)
    then show "\<exists>t. build_table_transposed tfs vals kw = Inr t"
      unfolding eq by auto
  qed
  have err: "\<exists>tf \<in> set tfs. build_field_content tf vals ?kw True = Inl e"
    if "build_table_transposed tfs vals kw = Inl e" for e
  proof -
    from that have "?rows = Inl e"
      unfolding eq by (auto split: sum.splits)
    then obtain tf where "tf \<in> set tfs" and "transposed_row ?kw vals ?sh ?sf tf = Inl e"
      by (auto dest: mapE_Inl)
    then show ?thesis
      by (auto simp: transposed_row_def split: sum.splits)
  qed
  have shape: "opt_show_header (t_kwargs t) = Some False \<and> opt_show_footer (t_kwargs t) = Some False
        \<and> t_kwargs t = ?kw
        \<and> length (t_columns t) = length vals + of_bool ?sh + of_bool ?sf
        \<and> (\<exists>rows. t_ops t = map AddRow rows \<and> length rows = length tfs
             \<and> (\<forall>i<length tfs. \<exists>c.
                   build_field_content (tfs ! i) vals (t_kwargs t) True = Inr c
                   \<and> rows ! i = (if ?sh then [or_empty (fc_header c)] else []) @ fc_values c
                                @ (if ?sf then [or_empty (fc_footer c)] else [])
                   \<and> length (rows ! i) = length vals + of_bool ?sh + of_bool ?sf
                   \<and> (\<forall>k<length vals. field_cell (t_kwargs t) True (vals ! k) (tfs ! i) = Inr (fc_values c ! k))))"
    if "build_table_transposed tfs vals kw = Inr t" for t
  proof -
    from that obtain rows where
      rows: "?rows = Inr rows" and
      t: "t = \<lparr>t_columns = map (\<lambda>n. Column_init (''row'' @ str_of_nat n))
                          [0..<length vals + of_bool ?sh + of_bool ?sf],
             t_kwargs = ?kw, t_ops = map AddRow rows\<rparr>"
      unfolding eq by (auto split: sum.splits)
    from rows have len: "length rows = length tfs"
      and each: "\<forall>i<length tfs. transposed_row ?kw vals ?sh ?sf (tfs ! i) = Inr (rows ! i)"
      by (simp_all add: mapE_Inr_iff)
    have "\<forall>i<length tfs. \<exists>c.
          build_field_content (tfs ! i) vals ?kw True = Inr c
          \<and> rows ! i = (if ?sh then [or_empty (fc_header c)] else []) @ fc_values c
                       @ (if ?sf then [or_empty (fc_footer c)] else [])
          \<and> length (rows ! i) = length vals + of_bool ?sh + of_bool ?sf
          \<and> (\<forall>k<length vals. field_cell ?kw True (vals ! k) (tfs ! i) = Inr (fc_values c ! k))"
      using each transposed_row_length by blast
    then have "\<exists>rs. map AddRow rows = map AddRow rs \<and> length rs = length tfs \<and> (\<forall>i<length tfs. \<exists>c.
          build_field_content (tfs ! i) vals ?kw True = Inr c
          \<and> rs ! i = (if ?sh then [or_empty (fc_header c)] else []) @ fc_values c
                       @ (if ?sf then [or_empty (fc_footer c)] else [])
          \<and> length (rs ! i) = length vals + of_bool ?sh + of_bool ?sf
          \<and> (\<forall>k<length vals. field_cell ?kw True (vals ! k) (tfs ! i) = Inr (fc_values c ! k)))"
      using len by blast
    then show ?thesis
      unfolding t by simp
  qed
  from ok err shape show ?thesis
    by blast
qed

text \<open>
  The content of a field can be built exactly when the getter returns for every record,
  the header and the footer can be computed, and the formatter returns for every value.
\<close>

lemma build_field_content_Inr_iff:
  "(\<exists>c. build_field_content tf items kw b = Inr c) \<longleftrightarrow>
     (\<exists>vs. mapE (get_field_value tf) items = Inr vs
          \<and> (\<exists>h. get_header tf vs b (get_or (opt_header_style kw) []) = Inr h)
          \<and> (\<exists>f. get_footer tf vs b (get_or (opt_footer_style kw) []) = Inr f)
          \<and> (\<forall>v \<in> set vs. \<exists>r. format_field_value tf v b (get_or (opt_style kw) []) = Inr r))"
proof
  assume "\<exists>c. build_field_content tf items kw b = Inr c"
  then obtain vs h f rs where
    "mapE (get_field_value tf) items = Inr vs"
    "get_header tf vs b (get_or (opt_header_style kw) []) = Inr h"
    "get_footer tf vs b (get_or (opt_footer_style kw) []) = Inr f"
    "mapE (\<lambda>v. format_field_value tf v b (get_or (opt_style kw) [])) vs = Inr rs"
    by (auto simp: build_field_content_def split: sum.splits)
  then show "\<exists>vs. mapE (get_field_value tf) items = Inr vs
          \<and> (\<exists>h. get_header tf vs b (get_or (opt_header_style kw) []) = Inr h)
          \<and> (\<exists>f. get_footer tf vs b (get_or (opt_footer_style kw) []) = Inr f)
          \<and> (\<forall>v \<in> set vs. \<exists>r. format_field_value tf v b (get_or (opt_style kw) []) = Inr r)"
    using mapE_Inr_all by blast
next
  assume "\<exists>vs. mapE (get_field_value tf) items = Inr vs
          \<and> (\<exists>h. get_header tf vs b (get_or (opt_header_style kw) []) = Inr h)
          \<and> (\<exists>f. get_footer tf vs b (get_or (opt_footer_style kw) []) = Inr f)
          \<and> (\<forall>v \<in> set vs. \<exists>r. format_field_value tf v b (get_or (opt_style kw) []) = Inr r)"
  then obtain vs h f where
    1: "mapE (get_field_value tf) items = Inr vs"
       "get_header tf vs b (get_or (opt_header_style kw) []) = Inr h"
       "get_footer tf vs b (get_or (opt_footer_style kw) []) = Inr f" and
    2: "\<forall>v \<in> set vs. \<exists>r. format_field_value tf v b (get_or (opt_style kw) []) = Inr r"
    by blast
  from mapE_succeeds [OF 2] obtain rs where
    "mapE (\<lambda>v. format_field_value tf v b (get_or (opt_style kw) [])) vs = Inr rs"
    by blast
  with 1 show "\<exists>c. build_field_content tf items kw b = Inr c"
    by (simp add: build_field_content_def)
qed

text \<open>
  C4, on the cart example with header and footer shown: three rows of four cells. With
  the key \<^verbatim>\<open>Obj["a"]["b"]\<close> over the record \<^verbatim>\<open>{}\<close> the getter raises, and so does
  the build.
\<close>

theorem transposed_build_shape_witness:
  "(\<exists>t. build_table_transposed [name_field, qty_field, price_field] cart header_footer_options = Inr t
       \<and> t_ops t = [AddRow [Text ''name'' [], Text ''A'' [], Text ''B'' [], Val (PStr [])],
                    AddRow [Text ''qty'' [], Text ''1'' [], Text ''2'' [], Text ''3'' []],
                    AddRow [Text ''price'' [], Text ''10'' [], Text ''20'' [], Text ''-'' []]]
       \<and> length (t_columns t) = 4
       \<and> opt_show_header (t_kwargs t) = Some False \<and> opt_show_footer (t_kwargs t) = Some False)
   \<and> build_table_transposed [nested_key_field] [PDict []] no_options
        = Inl (TypeError (CHR 0x27 # ''NoneType'' @ CHR 0x27 # '' object is not subscriptable''))"
proof -
  have h: "build_table_transposed [name_field, qty_field, price_field] cart header_footer_options
     = Inr \<lparr>t_columns = [Column_init ''row0'', Column_init ''row1'', Column_init ''row2'', Column_init ''row3''],
            t_kwargs = header_footer_options\<lparr>opt_show_header := Some False, opt_show_footer := Some False\<rparr>,
            t_ops = [AddRow [Text ''name'' [], Text ''A'' [], Text ''B'' [], Val (PStr [])],
                    AddRow [Text ''qty'' [], Text ''1'' [], Text ''2'' [], Text ''3'' []],
                    AddRow [Text ''price'' [], Text ''10'' [], Text ''20'' [], Text ''-'' []]]\<rparr>"
    by (simp add: build_table_transposed_def transposed_row_def build_field_content_def
        get_field_value_def ObjType_call_def ObjType_getitem_def Obj_def
        get_header_def get_footer_def reduce_and_format_def format_field_value_def
        str_formatter_def py_sum_def str_of_int_def str_of_nat.simps digit_char_def or_empty_def
        get_or_def style_or_def name_field_def qty_field_def price_field_def cart_def
        header_footer_options_def no_options_def TableField_default_def add_row_def accepted_cell_def)
  have f: "build_table_transposed [nested_key_field] [PDict []] no_options
        = Inl (TypeError (CHR 0x27 # ''NoneType'' @ CHR 0x27 # '' object is not subscriptable''))"
    by (simp add: build_table_transposed_def transposed_row_def build_field_content_def
        get_field_value_def ObjType_call_def ObjType_getitem_def Obj_def nested_key_field_def
        TableField_default_def no_options_def get_or_def)
  note shape = transposed_build_shape
    [of "[name_field, qty_field, price_field]" cart header_footer_options]
  note fails = transposed_build_shape [of "[nested_key_field]" "[PDict []]" no_options]
  show ?thesis
    using h f shape fails by simp
qed

lemma append_cells_Inr:
  "length vs = length rows \<Longrightarrow> append_cells rows vs = Inr (map2 (\<lambda>r v. r @ [v]) rows vs)"
  by (induction rows vs rule: append_cells.induct) auto

lemma normal_fields_Inr:
  assumes "normal_fields tfs items kw cols rows0 = Inr (cols', rows')"
      and "length rows0 = length items"
  shows "length rows' = length items \<and> length cols' = length cols + length tfs
         \<and> (\<forall>i<length items. \<exists>cells. mapE (field_cell kw False (items ! i)) tfs = Inr cells
                                      \<and> rows' ! i = rows0 ! i @ cells)"
  using assms
proof (induction tfs arbitrary: cols rows0)
  case Nil
  then show ?case by simp
next
  case (Cons tf tfs)
  from Cons.prems(1) obtain c rows1 where
    c: "build_field_content tf items kw False = Inr c" and
    a: "append_cells rows0 (fc_values c) = Inr rows1" and
    r: "normal_fields tfs items kw (cols @ [column tf (fc_header c) (or_empty (fc_footer c))]) rows1
          = Inr (cols', rows')"
    by (auto split: sum.splits)
  note cells = build_field_content_cells [OF c]
  from cells Cons.prems(2) have len: "length (fc_values c) = length rows0"
    by simp
  from a append_cells_Inr [OF len] have rows1: "rows1 = map2 (\<lambda>r v. r @ [v]) rows0 (fc_values c)"
    by simp
  with len Cons.prems(2) have len1: "length rows1 = length items"
    by simp
  note IH = Cons.IH [OF r len1]
  have "\<exists>cells. mapE (field_cell kw False (items ! i)) (tf # tfs) = Inr cells
                 \<and> rows' ! i = rows0 ! i @ cells" if i: "i < length items" for i
  proof -
    from IH i obtain cells where
      m: "mapE (field_cell kw False (items ! i)) tfs = Inr cells" and
      e: "rows' ! i = rows1 ! i @ cells"
      by blast
    from cells i have f: "field_cell kw False (items ! i) tf = Inr (fc_values c ! i)"
      by simp
    from rows1 i len Cons.prems(2) have "rows1 ! i = rows0 ! i @ [fc_values c ! i]"
      by simp
    with e m f show ?thesis
      by simp
  qed
  with IH show ?case
    by simp
qed

lemma normal_fields_succeeds:
  assumes "\<forall>tf \<in> set tfs. \<exists>c. build_field_content tf items kw False = Inr c"
      and "length rows0 = length items"
  shows "\<exists>r. normal_fields tfs items kw cols rows0 = Inr r"
  using assms
proof (induction tfs arbitrary: cols rows0)
  case Nil
  then show ?case by simp
next
  case (Cons tf tfs)
  then obtain c where c: "build_field_content tf items kw False = Inr c"
    by auto
  from build_field_content_cells [OF c] Cons.prems(2) have len: "length (fc_values c) = length rows0"
    by simp
  have "length (map2 (\<lambda>r v. r @ [v]) rows0 (fc_values c)) = length items"
    using len Cons.prems(2) by simp
  with Cons.IH Cons.prems(1) obtain r where
    "normal_fields tfs items kw (cols @ [column tf (fc_header c) (or_empty (fc_footer c))])
       (map2 (\<lambda>r v. r @ [v]) rows0 (fc_values c)) = Inr r"
    by (metis list.set_intros(2))
  with c append_cells_Inr [OF len] show ?case
    by simp
qed

lemma upt_Suc_shift: "[0..<Suc n] = 0 # map Suc [0..<n]"
  by (simp add: upt_conv_Cons map_Suc_upt del: upt_Suc)

lemma concat_singletons: "concat (map (\<lambda>i. [g i]) xs) = map g xs"
  by (induction xs) simp_all


lemma normal_fields_Inr_fields:
  "normal_fields tfs items kw cols rows0 = Inr r \<Longrightarrow>
   \<forall>tf \<in> set tfs. \<exists>c. build_field_content tf items kw False = Inr c"
  by (induction tfs arbitrary: cols rows0) (auto split: sum.splits)

lemma normal_fields_Inl:
  assumes "normal_fields tfs items kw cols rows0 = Inl e" and "length rows0 = length items"
  shows "\<exists>tf \<in> set tfs. build_field_content tf items kw False = Inl e"
  using assms
proof (induction tfs arbitrary: cols rows0)
  case Nil
  then show ?case by simp
next
  case (Cons tf tfs)
  show ?case
  proof (cases "build_field_content tf items kw False")
    case (Inl e')
    with Cons.prems(1) show ?thesis by simp
  next
    case (Inr c)
    from build_field_content_cells [OF Inr] Cons.prems(2) have len: "length (fc_values c) = length rows0"
      by simp
    note a = append_cells_Inr [OF len]
    with Inr Cons.prems(1) have
      "normal_fields tfs items kw (cols @ [column tf (fc_header c) (or_empty (fc_footer c))])
         (map2 (\<lambda>r v. r @ [v]) rows0 (fc_values c)) = Inl e"
      by simp
    moreover have "length (map2 (\<lambda>r v. r @ [v]) rows0 (fc_values c)) = length items"
      using len Cons.prems(2) by simp
    ultimately have "\<exists>tf \<in> set tfs. build_field_content tf items kw False = Inl e"
      by (rule Cons.IH)
    then show ?thesis by auto
  qed
qed

lemma add_rows_zip:
  "length ms = length rows \<Longrightarrow> \<forall>row \<in> set rows. \<forall>c \<in> set row. accepted_cell c \<Longrightarrow>
   add_rows cur (zip ms rows) =
     Inr (concat (map (\<lambda>i. (if ms ! i \<noteq> (if i = 0 then cur else ms ! (i - 1)) then [AddSection] else [])
                       @ [AddRow (rows ! i)]) [0..<length rows]))"
proof (induction ms arbitrary: rows cur)
  case Nil
  then show ?case by simp
next
  case (Cons m ms)
  then obtain row rows' where rows: "rows = row # rows'"
    by (cases rows) auto
  with Cons.prems have len: "length ms = length rows'"
    and acc: "\<forall>row \<in> set rows'. \<forall>c \<in> set row. accepted_cell c"
    and row: "add_row row = Inr (AddRow row)"
    by (simp_all add: add_row_accepted)
  have shift: "map (\<lambda>i. (if (m # ms) ! i \<noteq> (if i = 0 then cur else (m # ms) ! (i - 1)) then [AddSection] else [])
                       @ [AddRow ((row # rows') ! i)]) (map Suc [0..<length rows'])
             = map (\<lambda>i. (if ms ! i \<noteq> (if i = 0 then m else ms ! (i - 1)) then [AddSection] else [])
                       @ [AddRow (rows' ! i)]) [0..<length rows']"
    by (auto simp: nth_Cons split: nat.splits)
  show ?case
    unfolding rows length_Cons upt_Suc_shift list.map concat.simps shift
    using Cons.IH [OF len acc, of m] Cons.IH [OF len acc, of cur] row
    by (cases "m = cur") simp_all
qed

lemma add_rows_Inl: "add_rows cur xs = Inl e \<Longrightarrow> \<exists>m. e = NotRenderableError m"
  by (induction cur xs rule: add_rows.induct) (auto split: sum.splits if_splits dest: add_row_Inl)

lemma add_rows_Inr_accepted:
  "add_rows cur xs = Inr ops \<Longrightarrow> \<forall>x \<in> set xs. \<forall>c \<in> set (snd x). accepted_cell c"
  by (induction cur xs arbitrary: ops rule: add_rows.induct)
     (auto split: sum.splits if_splits dest: add_row_Inr)

lemma add_rows_from_first:
  assumes "length ms = length rows" and "\<forall>row \<in> set rows. \<forall>c \<in> set row. accepted_cell c"
  shows "add_rows (ms ! 0) (zip ms rows) =
     Inr (concat (map (\<lambda>i. (if 0 < i \<and> ms ! i \<noteq> ms ! (i - 1) then [AddSection] else [])
                       @ [AddRow (rows ! i)]) [0..<length rows]))"
proof -
  have "map (\<lambda>i. (if ms ! i \<noteq> (if i = 0 then ms ! 0 else ms ! (i - 1)) then [AddSection] else [])
                       @ [AddRow (rows ! i)]) [0..<length rows]
      = map (\<lambda>i. (if 0 < i \<and> ms ! i \<noteq> ms ! (i - 1) then [AddSection] else [])
                       @ [AddRow (rows ! i)]) [0..<length rows]"
    by (rule map_cong) auto
  then show ?thesis
    using add_rows_zip [OF assms, of "ms ! 0"] by (simp only:)
qed

lemma length_markers_of: "length (markers_of sb items) = length items"
  by (simp add: markers_of_def split: option.splits)

lemma length_section_sorted: "length (section_sorted sb items) = length items"
  by (simp add: section_sorted_def split: option.splits)

lemma set_section_sorted: "set (section_sorted sb items) = set items"
  by (simp add: section_sorted_def split: option.splits)

lemma build_table_normal_eq:
  "build_table_normal tfs sb items0 kw =
     (case normal_fields tfs (section_sorted sb items0) kw [] (replicate (length items0) []) of
        Inl e \<Rightarrow> Inl e
      | Inr (cols, rows) \<Rightarrow>
          (case add_rows (markers_of sb (section_sorted sb items0) ! 0)
                  (zip (markers_of sb (section_sorted sb items0)) rows) of
             Inl e \<Rightarrow> Inl e
           | Inr ops \<Rightarrow> Inr \<lparr>t_columns = cols, t_kwargs = kw, t_ops = ops\<rparr>))"
proof (cases "normal_fields tfs (section_sorted sb items0) kw [] (replicate (length items0) [])")
  case (Inl e)
  then show ?thesis
    by (simp add: build_table_normal_def Let_def length_section_sorted)
next
  case (Inr r)
  obtain cols rows where r: "r = (cols, rows)"
    by (cases r)
  from normal_fields_Inr [of tfs "section_sorted sb items0" kw "[]" "replicate (length items0) []" cols rows]
    Inr r
  have len: "length rows = length items0"
    by (simp add: length_section_sorted)
  show ?thesis
  proof (cases "rows = []")
    case True
    with Inr r show ?thesis
      by (simp add: build_table_normal_def Let_def length_section_sorted)
  next
    case False
    with len length_markers_of [of sb "section_sorted sb items0"]
    obtain m ms' where m: "markers_of sb (section_sorted sb items0) = m # ms'"
      by (cases "markers_of sb (section_sorted sb items0)") (auto simp: length_section_sorted)
    with Inr r False show ?thesis
      by (simp add: build_table_normal_def Let_def length_section_sorted)
  qed
qed

lemma normal_rows_cells:
  assumes "normal_fields tfs items kw [] (replicate (length items) []) = Inr (cols, rows)"
  shows "length rows = length items \<and> length cols = length tfs
         \<and> (\<forall>i<length items. mapE (field_cell kw False (items ! i)) tfs = Inr (rows ! i))"
  using normal_fields_Inr [OF assms] by auto

lemma rows_accepted_iff:
  assumes len: "length rows = length items"
      and cells: "\<forall>i<length items. mapE (field_cell kw False (items ! i)) tfs = Inr (rows ! i)"
  shows "(\<forall>row \<in> set rows. \<forall>c \<in> set row. accepted_cell c) \<longleftrightarrow>
         (\<forall>tf \<in> set tfs. \<forall>item \<in> set items. \<forall>cell.
             field_cell kw False item tf = Inr cell \<longrightarrow> accepted_cell cell)"
proof
  assume acc: "\<forall>row \<in> set rows. \<forall>c \<in> set row. accepted_cell c"
  show "\<forall>tf \<in> set tfs. \<forall>item \<in> set items. \<forall>cell.
             field_cell kw False item tf = Inr cell \<longrightarrow> accepted_cell cell"
  proof (intro ballI allI impI)
    fix tf item cell
    assume "tf \<in> set tfs" and "item \<in> set items" and fc: "field_cell kw False item tf = Inr cell"
    then obtain i j where i: "i < length items" "item = items ! i" and j: "j < length tfs" "tf = tfs ! j"
      by (auto simp: in_set_conv_nth)
    from cells i have m: "mapE (field_cell kw False item) tfs = Inr (rows ! i)"
      by simp
    then have "length (rows ! i) = length tfs" and "field_cell kw False item (tfs ! j) = Inr (rows ! i ! j)"
      using j by (simp_all add: mapE_Inr_iff)
    with fc j have "cell = rows ! i ! j" and "j < length (rows ! i)"
      by simp_all
    moreover from i len have "rows ! i \<in> set rows"
      by simp
    ultimately show "accepted_cell cell"
      using acc by auto
  qed
next
  assume ok: "\<forall>tf \<in> set tfs. \<forall>item \<in> set items. \<forall>cell.
             field_cell kw False item tf = Inr cell \<longrightarrow> accepted_cell cell"
  show "\<forall>row \<in> set rows. \<forall>c \<in> set row. accepted_cell c"
  proof (intro ballI)
    fix row c
    assume "row \<in> set rows" and "c \<in> set row"
    then obtain i j where i: "i < length rows" "row = rows ! i" and j: "j < length row" "c = row ! j"
      by (auto simp: in_set_conv_nth)
    from cells i len have m: "mapE (field_cell kw False (items ! i)) tfs = Inr row"
      by simp
    then have "length row = length tfs"
      by (simp add: mapE_Inr_iff)
    with m j have "field_cell kw False (items ! i) (tfs ! j) = Inr c" and "j < length tfs"
      by (simp_all add: mapE_Inr_iff)
    moreover from i len have "items ! i \<in> set items"
      by simp
    ultimately show "accepted_cell c"
      using ok by (metis nth_mem)
  qed
qed

lemma add_rows_zip_accepted:
  assumes "length ms = length rows" and "add_rows cur (zip ms rows) = Inr ops"
  shows "\<forall>row \<in> set rows. \<forall>c \<in> set row. accepted_cell c"
proof -
  from assms(1) have "map snd (zip ms rows) = rows"
    by (rule map_snd_zip)
  then have "set rows = snd ` set (zip ms rows)"
    by (metis set_map)
  with add_rows_Inr_accepted [OF assms(2)] show ?thesis
    by auto
qed

text \<open>
  C5. The normal build returns a table exactly when the content of every field can be
  built and every cell is one that \<^verbatim>\<open>add_row\<close> accepts; otherwise it raises what
  building the content of a field raised, or \<open>NotRenderableError\<close>. The table it
  returns has one column per field and one row per record: row \<open>i\<close> holds the cells of
  the \<open>i\<close>-th item, field by field. Without a section function the items are the
  records in input order and no section is added. With a section function \<open>f\<close> the
  items are the records sorted by \<open>f\<close>, records with equal keys in their input order,
  and \<^verbatim>\<open>add_section\<close> is called exactly before each row, other than the first, whose
  key differs from the key of the row before it.
\<close>

theorem normal_build_order_and_sections:
  "((\<exists>t. build_table_normal tfs sb items0 kw = Inr t) \<longleftrightarrow>
      (\<forall>tf \<in> set tfs.
          (\<exists>c. build_field_content tf (section_sorted sb items0) kw False = Inr c)
          \<and> (\<forall>item \<in> set items0. \<forall>cell. field_cell kw False item tf = Inr cell \<longrightarrow> accepted_cell cell)))
   \<and> (\<forall>e. build_table_normal tfs sb items0 kw = Inl e \<longrightarrow>
        (\<exists>tf \<in> set tfs. build_field_content tf (section_sorted sb items0) kw False = Inl e)
        \<or> (\<exists>m. e = NotRenderableError m))
   \<and> (\<forall>t. build_table_normal tfs sb items0 kw = Inr t \<longrightarrow>
        (\<exists>items rows.
           length items = length items0 \<and> length rows = length items0
         \<and> length (t_columns t) = length tfs \<and> t_kwargs t = kw
         \<and> (\<forall>i<length items0. mapE (field_cell kw False (items ! i)) tfs = Inr (rows ! i))
         \<and> (sb = None \<longrightarrow> items = items0 \<and> t_ops t = map AddRow rows)
         \<and> (\<forall>f. sb = Some f \<longrightarrow>
              sorted (map f items) \<and> mset items = mset items0
              \<and> (\<forall>k. filter (\<lambda>x. f x = k) items = filter (\<lambda>x. f x = k) items0)
              \<and> t_ops t = concat (map (\<lambda>i. (if 0 < i \<and> f (items ! i) \<noteq> f (items ! (i - 1))
                                               then [AddSection] else [])
                                             @ [AddRow (rows ! i)]) [0..<length items0]))))"
proof -
  define items where "items = section_sorted sb items0"
  define ms where "ms = markers_of sb items"
  have len_items: "length items = length items0"
    by (simp add: items_def length_section_sorted)
  have set_items: "set items = set items0"
    by (simp add: items_def set_section_sorted)
  have len_ms: "length ms = length items"
    by (simp add: ms_def length_markers_of)
  have eq: "build_table_normal tfs sb items0 kw =
     (case normal_fields tfs items kw [] (replicate (length items) []) of
        Inl e \<Rightarrow> Inl e
      | Inr (cols, rows) \<Rightarrow>
          (case add_rows (ms ! 0) (zip ms rows) of
             Inl e \<Rightarrow> Inl e
           | Inr ops \<Rightarrow> Inr \<lparr>t_columns = cols, t_kwargs = kw, t_ops = ops\<rparr>))"
    unfolding ms_def items_def length_section_sorted by (rule build_table_normal_eq)

  have ok: "(\<exists>t. build_table_normal tfs sb items0 kw = Inr t) \<longleftrightarrow>
      (\<forall>tf \<in> set tfs.
          (\<exists>c. build_field_content tf items kw False = Inr c)
          \<and> (\<forall>item \<in> set items0. \<forall>cell. field_cell kw False item tf = Inr cell \<longrightarrow> accepted_cell cell))"
  proof
    assume "\<exists>t. build_table_normal tfs sb items0 kw = Inr t"
    then obtain cols rows ops where
      nf: "normal_fields tfs items kw [] (replicate (length items) []) = Inr (cols, rows)" and
      ar: "add_rows (ms ! 0) (zip ms rows) = Inr ops"
      unfolding eq by (auto split: sum.splits)
    note rc = normal_rows_cells [OF nf]
    from rc len_ms have "length ms = length rows"
      by simp
    from add_rows_zip_accepted [OF this ar] have "\<forall>row \<in> set rows. \<forall>c \<in> set row. accepted_cell c" .
    with rc have "\<forall>tf \<in> set tfs. \<forall>item \<in> set items. \<forall>cell.
             field_cell kw False item tf = Inr cell \<longrightarrow> accepted_cell cell"
      using rows_accepted_iff [of rows items kw tfs] by blast
    with normal_fields_Inr_fields [OF nf] set_items
    show "\<forall>tf \<in> set tfs.
          (\<exists>c. build_field_content tf items kw False = Inr c)
          \<and> (\<forall>item \<in> set items0. \<forall>cell. field_cell kw False item tf = Inr cell \<longrightarrow> accepted_cell cell)"
      by blast
  next
    assume a: "\<forall>tf \<in> set tfs.
          (\<exists>c. build_field_content tf items kw False = Inr c)
          \<and> (\<forall>item \<in> set items0. \<forall>cell. field_cell kw False item tf = Inr cell \<longrightarrow> accepted_cell cell)"
    then have "\<forall>tf \<in> set tfs. \<exists>c. build_field_content tf items kw False = Inr c"
      by blast
    from normal_fields_succeeds [OF this, of "replicate (length items) []" "[]"]
    obtain cols rows where
      nf: "normal_fields tfs items kw [] (replicate (length items) []) = Inr (cols, rows)"
      by auto
    note rc = normal_rows_cells [OF nf]
    from a set_items have "\<forall>tf \<in> set tfs. \<forall>item \<in> set items. \<forall>cell.
             field_cell kw False item tf = Inr cell \<longrightarrow> accepted_cell cell"
      by blast
    with rc have acc: "\<forall>row \<in> set rows. \<forall>c \<in> set row. accepted_cell c"
      using rows_accepted_iff [of rows items kw tfs] by blast
    from rc len_ms have "length ms = length rows"
      by simp
    from add_rows_from_first [OF this acc] nf
    show "\<exists>t. build_table_normal tfs sb items0 kw = Inr t"
      unfolding eq by simp
  qed

  have err: "(\<exists>tf \<in> set tfs. build_field_content tf items kw False = Inl e)
        \<or> (\<exists>m. e = NotRenderableError m)"
    if "build_table_normal tfs sb items0 kw = Inl e" for e
  proof (cases "normal_fields tfs items kw [] (replicate (length items) [])")
    case (Inl e')
    with that have "e' = e"
      unfolding eq by simp
    with Inl normal_fields_Inl [of tfs items kw "[]" "replicate (length items) []" e]
    show ?thesis by simp
  next
    case (Inr r)
    with that obtain cols rows where "add_rows (ms ! 0) (zip ms rows) = Inl e"
      unfolding eq by (auto split: sum.splits prod.splits)
    then show ?thesis
      by (auto dest: add_rows_Inl)
  qed

  have shape: "\<exists>items rows.
           length items = length items0 \<and> length rows = length items0
         \<and> length (t_columns t) = length tfs \<and> t_kwargs t = kw
         \<and> (\<forall>i<length items0. mapE (field_cell kw False (items ! i)) tfs = Inr (rows ! i))
         \<and> (sb = None \<longrightarrow> items = items0 \<and> t_ops t = map AddRow rows)
         \<and> (\<forall>f. sb = Some f \<longrightarrow>
              sorted (map f items) \<and> mset items = mset items0
              \<and> (\<forall>k. filter (\<lambda>x. f x = k) items = filter (\<lambda>x. f x = k) items0)
              \<and> t_ops t = concat (map (\<lambda>i. (if 0 < i \<and> f (items ! i) \<noteq> f (items ! (i - 1))
                                               then [AddSection] else [])
                                             @ [AddRow (rows ! i)]) [0..<length items0]))"
    if b: "build_table_normal tfs sb items0 kw = Inr t" for t
  proof -
    from b obtain cols rows ops where
      nf: "normal_fields tfs items kw [] (replicate (length items) []) = Inr (cols, rows)" and
      ar: "add_rows (ms ! 0) (zip ms rows) = Inr ops" and
      t: "t = \<lparr>t_columns = cols, t_kwargs = kw, t_ops = ops\<rparr>"
      unfolding eq by (auto split: sum.splits)
    from normal_rows_cells [OF nf] have
      len_rows: "length rows = length items" and
      len_cols: "length cols = length tfs" and
      cells: "\<forall>i<length items. mapE (field_cell kw False (items ! i)) tfs = Inr (rows ! i)"
      by auto
    from len_rows len_ms have lmr: "length ms = length rows"
      by simp
    from add_rows_zip_accepted [OF lmr ar] have acc: "\<forall>row \<in> set rows. \<forall>c \<in> set row. accepted_cell c" .
    from add_rows_from_first [OF lmr acc] ar have
      ops: "ops = concat (map (\<lambda>i. (if 0 < i \<and> ms ! i \<noteq> ms ! (i - 1) then [AddSection] else [])
                       @ [AddRow (rows ! i)]) [0..<length rows])"
      by simp
    have none: "items = items0 \<and> ops = map AddRow rows" if "sb = None"
    proof -
      from that have "ms = replicate (length items) MTrue" and i: "items = items0"
        by (simp_all add: ms_def items_def markers_of_def section_sorted_def)
      then have eq1: "map (\<lambda>i. (if 0 < i \<and> ms ! i \<noteq> ms ! (i - 1) then [AddSection] else [])
                       @ [AddRow (rows ! i)]) [0..<length rows]
             = map (\<lambda>i. [AddRow (rows ! i)]) [0..<length rows]"
        using len_rows by (intro map_cong) auto
      from ops have "ops = map (\<lambda>i. AddRow (rows ! i)) [0..<length rows]"
        by (simp only: eq1 concat_singletons)
      also have "\<dots> = map AddRow (map ((!) rows) [0..<length rows])"
        by simp
      also have "\<dots> = map AddRow rows"
        by (simp only: map_nth)
      finally show ?thesis
        using i by simp
    qed
    have some: "sorted (map f items) \<and> mset items = mset items0
          \<and> (\<forall>k. filter (\<lambda>x. f x = k) items = filter (\<lambda>x. f x = k) items0)
          \<and> ops = concat (map (\<lambda>i. (if 0 < i \<and> f (items ! i) \<noteq> f (items ! (i - 1))
                                           then [AddSection] else [])
                                         @ [AddRow (rows ! i)]) [0..<length items0])"
      if "sb = Some f" for f
    proof -
      from that have ms: "ms = map (\<lambda>item. MKey (f item)) items" and i: "items = sort_key f items0"
        by (simp_all add: ms_def items_def markers_of_def section_sorted_def)
      have eq1: "map (\<lambda>i. (if 0 < i \<and> ms ! i \<noteq> ms ! (i - 1) then [AddSection] else [])
                       @ [AddRow (rows ! i)]) [0..<length rows]
             = map (\<lambda>i. (if 0 < i \<and> f (items ! i) \<noteq> f (items ! (i - 1)) then [AddSection] else [])
                       @ [AddRow (rows ! i)]) [0..<length rows]"
        using len_rows ms by (intro map_cong) auto
      from ops have "ops = concat (map (\<lambda>i. (if 0 < i \<and> f (items ! i) \<noteq> f (items ! (i - 1))
                                           then [AddSection] else [])
                                         @ [AddRow (rows ! i)]) [0..<length rows])"
        by (simp only: eq1)
      then have "ops = concat (map (\<lambda>i. (if 0 < i \<and> f (items ! i) \<noteq> f (items ! (i - 1))
                                           then [AddSection] else [])
                                         @ [AddRow (rows ! i)]) [0..<length items0])"
        by (simp only: len_rows len_items)
      moreover have "sorted (map f items)" and "mset items = mset items0"
        and "\<forall>k. filter (\<lambda>x. f x = k) items = filter (\<lambda>x. f x = k) items0"
        using i by (simp_all add: sort_key_stable)
      ultimately show ?thesis by blast
    qed
    from len_cols len_items len_rows cells none some show ?thesis
      unfolding t by (intro exI [of _ items] exI [of _ rows]) simp
  qed
  from ok err shape show ?thesis
    unfolding items_def by blast
qed

text \<open>
  C5, on three records with groups 2, 1, 2 (sorted to B, A, C with one section break
  after B), and on the cart example without section function. A field without formatter
  over the record \<^verbatim>\<open>1\<close> gives an integer cell, which \<^verbatim>\<open>add_row\<close> refuses; a getter
  that raises ends the build as well.
\<close>

theorem normal_build_order_and_sections_witness:
  "(\<exists>t. build_table_normal [name_field] (Some group_of) grouped no_options = Inr t
        \<and> t_ops t = [AddRow [Val (PStr ''B'')], AddSection, AddRow [Val (PStr ''A'')],
                     AddRow [Val (PStr ''C'')]])
   \<and> (\<exists>t. build_table_normal [name_field, qty_field, price_field] (None :: (pyval \<Rightarrow> nat) option)
             cart header_footer_options = Inr t
        \<and> t_ops t = [AddRow [Val (PStr ''A''), Val (PStr ''1''), Val (PStr ''10'')],
                     AddRow [Val (PStr ''B''), Val (PStr ''2''), Val (PStr ''20'')]]
        \<and> map c_header (t_columns t) = [Val (PStr ''name''), Val (PStr ''qty''), Val (PStr ''price'')]
        \<and> map c_footer (t_columns t) = [Val (PStr []), Val (PStr ''3''), Val (PStr ''-'')])
   \<and> build_table_normal [unformatted_field] (None :: (pyval \<Rightarrow> nat) option) [PInt 1] no_options
        = Inl (NotRenderableError ''unable to render int; a string or other renderable object is required'')
   \<and> build_table_normal [nested_key_field] (None :: (pyval \<Rightarrow> nat) option) [PDict []] no_options
        = Inl (TypeError (CHR 0x27 # ''NoneType'' @ CHR 0x27 # '' object is not subscriptable''))"
proof -
  have g: "build_table_normal [name_field] (Some group_of) grouped no_options
     = Inr \<lparr>t_columns = [column name_field (Val (PStr ''name'')) (Val (PStr []))],
            t_kwargs = no_options,
            t_ops = [AddRow [Val (PStr ''B'')], AddSection, AddRow [Val (PStr ''A'')],
                     AddRow [Val (PStr ''C'')]]\<rparr>"
    by (simp add: build_table_normal_def section_sorted_def markers_of_def build_field_content_def
        get_field_value_def ObjType_call_def ObjType_getitem_def Obj_def
        get_header_def get_footer_def reduce_and_format_def format_field_value_def
        str_formatter_def or_empty_def get_or_def name_field_def grouped_def
        no_options_def TableField_default_def add_row_def accepted_cell_def)
  have n: "build_table_normal [name_field, qty_field, price_field] (None :: (pyval \<Rightarrow> nat) option)
             cart header_footer_options
     = Inr \<lparr>t_columns = [column name_field (Val (PStr ''name'')) (Val (PStr [])),
                         column qty_field (Val (PStr ''qty'')) (Val (PStr ''3'')),
                         column price_field (Val (PStr ''price'')) (Val (PStr ''-''))],
            t_kwargs = header_footer_options,
            t_ops = [AddRow [Val (PStr ''A''), Val (PStr ''1''), Val (PStr ''10'')],
                     AddRow [Val (PStr ''B''), Val (PStr ''2''), Val (PStr ''20'')]]\<rparr>"
    by (simp add: build_table_normal_def section_sorted_def markers_of_def build_field_content_def
        get_field_value_def ObjType_call_def ObjType_getitem_def Obj_def
        get_header_def get_footer_def reduce_and_format_def format_field_value_def
        str_formatter_def py_sum_def str_of_int_def str_of_nat.simps digit_char_def or_empty_def
        get_or_def name_field_def qty_field_def price_field_def cart_def
        header_footer_options_def no_options_def TableField_default_def add_row_def accepted_cell_def)
  have u: "build_table_normal [unformatted_field] (None :: (pyval \<Rightarrow> nat) option) [PInt 1] no_options
        = Inl (NotRenderableError ''unable to render int; a string or other renderable object is required'')"
    by (simp add: build_table_normal_def section_sorted_def markers_of_def build_field_content_def
        get_field_value_def ObjType_call_def Obj_def
        get_header_def get_footer_def reduce_and_format_def format_field_value_def
        or_empty_def get_or_def unformatted_field_def no_options_def TableField_default_def
        add_row_def accepted_cell_def hasattr_def)
  have k: "build_table_normal [nested_key_field] (None :: (pyval \<Rightarrow> nat) option) [PDict []] no_options
        = Inl (TypeError (CHR 0x27 # ''NoneType'' @ CHR 0x27 # '' object is not subscriptable''))"
    by (simp add: build_table_normal_def section_sorted_def markers_of_def build_field_content_def
        get_field_value_def ObjType_call_def ObjType_getitem_def Obj_def nested_key_field_def
        TableField_default_def no_options_def get_or_def)
  note sections = normal_build_order_and_sections [of "[name_field]" "Some group_of" grouped no_options]
  note plain = normal_build_order_and_sections
    [of "[name_field, qty_field, price_field]" "None :: (pyval \<Rightarrow> nat) option" cart header_footer_options]
  note not_renderable = normal_build_order_and_sections
    [of "[unformatted_field]" "None :: (pyval \<Rightarrow> nat) option" "[PInt 1]" no_options]
  note getter_fails = normal_build_order_and_sections
    [of "[nested_key_field]" "None :: (pyval \<Rightarrow> nat) option" "[PDict []]" no_options]
  show ?thesis
    using g n u k sections plain not_renderable getter_fails by (simp add: column_def)
qed

text \<open>
  \<^verbatim>\<open>TableBuilder.build\<close> gives \<^verbatim>\<open>transposed\<close> to the constructor only, and
  \<^verbatim>\<open>__call__\<close> then passes its own default \<^verbatim>\<open>False\<close>: the table is built in normal
  orientation whatever \<^verbatim>\<open>transposed\<close> is.
\<close>

lemma build_ignores_transposed:
  "TableBuilder_build tfs data tr sb kwargs
     = build_table_normal tfs sb data (default_table_kwargs (TableBuilder_init tfs tr sb kwargs))"
  by (simp add: TableBuilder_build_def TableBuilder_call_def build_table_def TableBuilder_init_def
      update_options_def)

end
